theory Spec2Isabelle
  imports Main
begin

section \<open>Values shared by the nodes\<close>

text \<open>
  The development embeds the two node classes of the package:
  \<^item> the Playwright node (\<^verbatim>\<open>src/unnamed/part_000\<close>, class \<^verbatim>\<open>Playwright\<close>, method
    \<^verbatim>\<open>execute\<close>), and
  \<^item> the Stagehand node (\<^verbatim>\<open>src/nodes/Stagehand/Stagehand.node.ts\<close>, lines 218 to
    629: class \<^verbatim>\<open>Stagehand\<close> with \<^verbatim>\<open>execute\<close>, \<^verbatim>\<open>isChatInstance\<close> and
    \<^verbatim>\<open>fieldsToZodSchema\<close>).
  Earlier revisions of the two classes, which the repository also holds (a Playwright
  node with three operations in \<^verbatim>\<open>src/nodes/Playwright/Playwright.node.ts\<close>, two
  Stagehand nodes without schema sources in the same file as the one above), are not
  embedded. Line numbers refer to the revisions named here.

  A node parameter is whatever the host resolved for it; the source only casts it
  (\<^verbatim>\<open>as string\<close>, \<^verbatim>\<open>as number\<close>, \<^verbatim>\<open>as boolean\<close>), so the model keeps the
  three primitive kinds apart. JavaScript numbers are restricted to integers.
\<close>

datatype pval = PStr string | PNum int | PBool bool

text \<open>The text a template literal \<^verbatim>\<open>${v}\<close> produces for a parameter value.\<close>

fun show_nat :: "nat \<Rightarrow> string" where
  "show_nat n =
     (if n < 10 then [''0123456789'' ! n]
      else show_nat (n div 10) @ [''0123456789'' ! (n mod 10)])"

declare show_nat.simps [simp del]

fun render :: "pval \<Rightarrow> string" where
  "render (PStr s) = s"
| "render (PNum i) = (if i < 0 then CHR ''-'' # show_nat (nat (- i)) else show_nat (nat i))"
| "render (PBool b) = (if b then ''true'' else ''false'')"

text \<open>
  One input item is the bag of parameters the host resolves for its index.
  \<^verbatim>\<open>getNodeParameter(name, i, fallback)\<close> yields the fallback when the parameter is
  not set; without a fallback the host raises.
\<close>

type_synonym item = "(string \<times> pval) list"

datatype err =
    HostError string
  | EngineError string
  | ApplicationError string
  | AssertionFailed string
  | TypeError string

definition getNodeParameter :: "item \<Rightarrow> string \<Rightarrow> pval \<Rightarrow> pval" where
  "getNodeParameter it name fallback =
     (case map_of it name of None \<Rightarrow> fallback | Some v \<Rightarrow> v)"

definition getNodeParameterReq :: "item \<Rightarrow> string \<Rightarrow> err + pval" where
  "getNodeParameterReq it name =
     (case map_of it name of
        None \<Rightarrow> Inl (HostError (''Could not get parameter: '' @ name))
      | Some v \<Rightarrow> Inr v)"

section \<open>Schema construction from a field list\<close>

text \<open>
  The fragment of the zod vocabulary that \<^verbatim>\<open>fieldsToZodSchema\<close> builds.
  \<open>ZObject shape passthrough\<close> is \<^verbatim>\<open>z.object(shape)\<close>, with \<^verbatim>\<open>.passthrough()\<close>
  when the flag is set; \<open>ZForeign\<close> stands for a schema object produced by evaluated
  code (the other three schema sources of \<^verbatim>\<open>execute\<close>).
\<close>

datatype ztype =
    ZString
  | ZNumber
  | ZBoolean
  | ZAny
  | ZArray ztype
  | ZObject "(string \<times> ztype) list" bool
  | ZOptional ztype
  | ZForeign string

record field_t =
  fieldName :: string
  fieldType :: string
  optional :: bool

text \<open>
  The object \<^verbatim>\<open>shape\<close>, which starts as the literal \<^verbatim>\<open>{}\<close>: its own properties in
  their enumeration order, and its prototype when that is no longer
  \<^verbatim>\<open>Object.prototype\<close>. The schema reads the own properties only.
\<close>

record shape_t =
  own :: "(string \<times> ztype) list"
  proto :: "ztype option"

text \<open>
  What the assignment of a key that \<^verbatim>\<open>shape\<close> does not own does, once a schema object
  is the prototype of \<^verbatim>\<open>shape\<close>, depends on the property of that name which the schema
  object has or inherits, and so on the schema library: none or a writable one (the
  key is created on \<^verbatim>\<open>shape\<close>), an accessor with a setter (the setter takes the value
  and \<^verbatim>\<open>shape\<close> gets no key), a getter without setter or a read-only property (the
  assignment raises a \<^verbatim>\<open>TypeError\<close>, the node being module code). The library is not
  part of the package; its answer is a parameter of the model.
\<close>

datatype put = Creates | Ignores | Rejects string

text \<open>
  An own key that is an array index (the decimal numeral, without leading zero, of an
  integer below \<open>2^32 - 1\<close>) is enumerated among the array indices, in ascending numeric
  order, ahead of every other key; the other keys follow in the order of their
  creation.
\<close>

definition decimal :: "string \<Rightarrow> int" where
  "decimal k = foldl (\<lambda>n c. 10 * n + (of_char c - 48)) 0 k"

definition array_index :: "string \<Rightarrow> int option" where
  "array_index k =
     (if k \<noteq> [] \<and> set k \<subseteq> set ''0123456789'' \<and> (k = ''0'' \<or> hd k \<in> set ''123456789'')
         \<and> decimal k < 4294967295
      then Some (decimal k) else None)"

primrec overwrite :: "string \<Rightarrow> ztype \<Rightarrow> (string \<times> ztype) list \<Rightarrow> (string \<times> ztype) list" where
  "overwrite k v [] = []"
| "overwrite k v (p # ps) = (if fst p = k then (k, v) # ps else p # overwrite k v ps)"

primrec insert_index ::
  "int \<Rightarrow> string \<Rightarrow> ztype \<Rightarrow> (string \<times> ztype) list \<Rightarrow> (string \<times> ztype) list" where
  "insert_index n k v [] = [(k, v)]"
| "insert_index n k v (p # ps) =
     (case array_index (fst p) of
        Some m \<Rightarrow> if m < n then p # insert_index n k v ps else (k, v) # p # ps
      | None \<Rightarrow> (k, v) # p # ps)"

definition define_own :: "string \<Rightarrow> ztype \<Rightarrow> (string \<times> ztype) list \<Rightarrow> (string \<times> ztype) list" where
  "define_own k v ps =
     (case array_index k of Some n \<Rightarrow> insert_index n k v ps | None \<Rightarrow> ps @ [(k, v)])"

text \<open>
  \<^verbatim>\<open>shape[fieldName] = v\<close>. An own key keeps its position and takes the new value.
  The name \<^verbatim>\<open>__proto__\<close> is the accessor that \<^verbatim>\<open>shape\<close> inherits from
  \<^verbatim>\<open>Object.prototype\<close>, directly or through a schema object: assigning a schema object
  to it replaces the prototype of \<^verbatim>\<open>shape\<close> and creates no key. Any other new key is
  created, unless the prototype has been replaced and the schema object in its place
  decides otherwise.
\<close>

definition assign ::
  "(ztype \<Rightarrow> string \<Rightarrow> put) \<Rightarrow> string \<Rightarrow> ztype \<Rightarrow> shape_t \<Rightarrow> err + shape_t" where
  "assign inherited k v shape =
     (if k \<in> set (map fst (own shape)) then Inr (shape\<lparr>own := overwrite k v (own shape)\<rparr>)
      else if k = ''__proto__'' then Inr (shape\<lparr>proto := Some v\<rparr>)
      else case proto shape of
             None \<Rightarrow> Inr (shape\<lparr>own := define_own k v (own shape)\<rparr>)
           | Some p \<Rightarrow>
               (case inherited p k of
                  Creates \<Rightarrow> Inr (shape\<lparr>own := define_own k v (own shape)\<rparr>)
                | Ignores \<Rightarrow> Inr shape
                | Rejects m \<Rightarrow> Inl (TypeError m)))"

definition zTypeOf :: "string \<Rightarrow> ztype" where
  "zTypeOf ft =
     (if ft = ''string'' then ZString
      else if ft = ''number'' then ZNumber
      else if ft = ''boolean'' then ZBoolean
      else if ft = ''array'' then ZArray ZAny
      else if ft = ''object'' then ZObject [] True
      else ZAny)"

definition fieldEntry :: "field_t \<Rightarrow> ztype" where
  "fieldEntry f = (if optional f then ZOptional (zTypeOf (fieldType f)) else zTypeOf (fieldType f))"

fun fieldsLoop :: "(ztype \<Rightarrow> string \<Rightarrow> put) \<Rightarrow> field_t list \<Rightarrow> shape_t \<Rightarrow> err + shape_t" where
  "fieldsLoop inherited [] shape = Inr shape"
| "fieldsLoop inherited (f # fs) shape =
     (case assign inherited (fieldName f) (fieldEntry f) shape of
        Inl e \<Rightarrow> Inl e
      | Inr shape' \<Rightarrow> fieldsLoop inherited fs shape')"

definition fieldsToZodSchema :: "(ztype \<Rightarrow> string \<Rightarrow> put) \<Rightarrow> field_t list \<Rightarrow> err + ztype" where
  "fieldsToZodSchema inherited fs =
     (case fieldsLoop inherited fs \<lparr>own = [], proto = None\<rparr> of
        Inl e \<Rightarrow> Inl e
      | Inr shape \<Rightarrow> Inr (ZObject (own shape) False))"

text \<open>The fields of an object schema, and the type registered under a name.\<close>

fun shapeOf :: "ztype \<Rightarrow> (string \<times> ztype) list" where
  "shapeOf (ZObject shape _) = shape"
| "shapeOf _ = []"

definition fieldOf :: "ztype \<Rightarrow> string \<Rightarrow> ztype option" where
  "fieldOf z name = map_of (shapeOf z) name"

section \<open>The browser engine as an oracle\<close>

text \<open>
  Every call that leaves the node (Playwright, Stagehand, the schema libraries, the
  host's binary helper) is a \<open>call\<close>. The engine answers a call with a value or
  raises; its answer may depend on everything that happened before, which is the list
  of events so far. A timeout is one of the ways a call raises.
  \<open>open_contexts\<close> and \<open>open_pages\<close> are the lengths of \<^verbatim>\<open>browser.contexts()\<close>
  and \<^verbatim>\<open>context.pages()\<close>; \<open>inherited_property\<close> is the answer of the schema library
  to an assignment through one of its schema objects.
\<close>

datatype call =
    ExecutablePath
  | ConnectOverCDP pval
  | NewContext
  | NewPage
  | Goto pval pval
  | Screenshot pval pval pval
  | PrepareBinaryData string
  | Click pval pval
  | Fill pval pval pval
  | SelectOption pval pval pval
  | Press pval pval pval
  | WaitForTimeout pval
  | WaitForSelector pval pval
  | WaitForLoadState pval pval
  | Evaluate pval pval
  | BrowserClose
  | StagehandInit pval string string pval
  | Act pval
  | SchemaFromExample pval
  | SchemaFromJsonSchema pval
  | SchemaFromZodCode pval
  | Extract pval ztype
  | Observe pval
  | StagehandClose

datatype outcome = Returns string | Throws string

datatype event = Ev call outcome

record engine =
  outcome_of :: "event list \<Rightarrow> call \<Rightarrow> outcome"
  open_contexts :: "event list \<Rightarrow> nat"
  open_pages :: "event list \<Rightarrow> nat"
  inherited_property :: "ztype \<Rightarrow> string \<Rightarrow> put"

text \<open>
  One element of \<^verbatim>\<open>results\<close>: \<open>Output operation result binary\<close> is
  \<^verbatim>\<open>{json: {operation, result}, binary: {screenshot}}\<close> (the last two optional),
  \<open>Failed e\<close> is \<^verbatim>\<open>{error: new NodeOperationError(node, e, ...), json: {}}\<close>.
\<close>

datatype node_data = Output pval "string option" "string option" | Failed err

record state =
  results :: "node_data list"
  trace :: "event list"

definition invoke :: "engine \<Rightarrow> call \<Rightarrow> state \<Rightarrow> outcome \<times> state" where
  "invoke eng c s =
     (let out = outcome_of eng (trace s) c in (out, s\<lparr>trace := trace s @ [Ev c out]\<rparr>))"

definition push :: "node_data \<Rightarrow> state \<Rightarrow> state" where
  "push r s = s\<lparr>results := results s @ [r]\<rparr>"

section \<open>The Playwright node\<close>

text \<open>
  Lines 380 to 384: the connection, then the first context and the first page, each
  created only when the browser has none. All three are outside the \<^verbatim>\<open>try\<close>.
\<close>

definition pw_connect :: "engine \<Rightarrow> pval \<Rightarrow> state \<Rightarrow> err option \<times> state" where
  "pw_connect eng cdpUrl s =
     (case invoke eng (ConnectOverCDP cdpUrl) s of
        (Throws m, s1) \<Rightarrow> (Some (EngineError m), s1)
      | (Returns _, s1) \<Rightarrow>
          (case (if open_contexts eng (trace s1) = 0 then invoke eng NewContext s1
                 else (Returns [], s1)) of
             (Throws m, s2) \<Rightarrow> (Some (EngineError m), s2)
           | (Returns _, s2) \<Rightarrow>
               (case (if open_pages eng (trace s2) = 0 then invoke eng NewPage s2
                      else (Returns [], s2)) of
                  (Throws m, s3) \<Rightarrow> (Some (EngineError m), s3)
                | (Returns _, s3) \<Rightarrow> (None, s3))))"

text \<open>An awaited page action followed by \<^verbatim>\<open>results.push({json: {operation}})\<close>.\<close>

definition pw_step :: "engine \<Rightarrow> call \<Rightarrow> pval \<Rightarrow> state \<Rightarrow> err option \<times> state" where
  "pw_step eng c operation s =
     (case invoke eng c s of
        (Throws m, s1) \<Rightarrow> (Some (EngineError m), s1)
      | (Returns _, s1) \<Rightarrow> (None, push (Output operation None None) s1))"

text \<open>The \<^verbatim>\<open>switch (operation)\<close> inside the \<^verbatim>\<open>try\<close>; \<open>Some e\<close> is a thrown error.\<close>

definition pw_switch :: "engine \<Rightarrow> item \<Rightarrow> pval \<Rightarrow> pval \<Rightarrow> state \<Rightarrow> err option \<times> state" where
  "pw_switch eng it operation timeout s =
     (if operation = PStr ''goto'' then
        pw_step eng (Goto (getNodeParameter it ''url'' (PStr [])) timeout) operation s
      else if operation = PStr ''screenshot'' then
        (let fullPage = getNodeParameter it ''fullPage'' (PBool False);
             quality = getNodeParameter it ''quality'' (PNum 80)
         in case invoke eng (Screenshot fullPage quality timeout) s of
              (Throws m, s1) \<Rightarrow> (Some (EngineError m), s1)
            | (Returns screenshot, s1) \<Rightarrow>
                (case invoke eng (PrepareBinaryData screenshot) s1 of
                   (Throws m, s2) \<Rightarrow> (Some (EngineError m), s2)
                 | (Returns b, s2) \<Rightarrow> (None, push (Output operation None (Some b)) s2)))
      else if operation = PStr ''click'' then
        pw_step eng (Click (getNodeParameter it ''selector'' (PStr [])) timeout) operation s
      else if operation = PStr ''fill'' \<or> operation = PStr ''type'' then
        pw_step eng
          (Fill (getNodeParameter it ''selector'' (PStr [])) (getNodeParameter it ''text'' (PStr []))
             timeout)
          operation s
      else if operation = PStr ''selectOption'' then
        pw_step eng
          (SelectOption (getNodeParameter it ''selector'' (PStr []))
             (getNodeParameter it ''value'' (PStr [])) timeout)
          operation s
      else if operation = PStr ''press'' then
        pw_step eng
          (Press (getNodeParameter it ''selector'' (PStr []))
             (getNodeParameter it ''key'' (PStr ''Enter'')) timeout)
          operation s
      else if operation = PStr ''waitForTimeout'' then
        pw_step eng (WaitForTimeout (getNodeParameter it ''duration'' (PNum 1000))) operation s
      else if operation = PStr ''waitForSelector'' then
        pw_step eng (WaitForSelector (getNodeParameter it ''selector'' (PStr [])) timeout)
          operation s
      else if operation = PStr ''waitForLoadState'' then
        (let st = getNodeParameter it ''state'' (PStr ''load'')
         in if st \<noteq> PStr ''load'' \<and> st \<noteq> PStr ''domcontentloaded''
               \<and> st \<noteq> PStr ''networkidle''
            then (Some (ApplicationError (''Unsupported load state: '' @ render st)), s)
            else pw_step eng (WaitForLoadState st timeout) operation s)
      else if operation = PStr ''evaluate'' then
        pw_step eng (Evaluate (getNodeParameter it ''script'' (PStr [])) timeout) operation s
      else (Some (ApplicationError (''Unsupported operation: '' @ render operation)), s))"

text \<open>The \<^verbatim>\<open>catch\<close> block pushes the error record; the \<^verbatim>\<open>finally\<close> block closes.\<close>

definition pw_catch :: "err option \<times> state \<Rightarrow> state" where
  "pw_catch r = (case r of (None, s) \<Rightarrow> s | (Some e, s) \<Rightarrow> push (Failed e) s)"

definition pw_finally :: "engine \<Rightarrow> state \<Rightarrow> err option \<times> state" where
  "pw_finally eng s =
     (case invoke eng BrowserClose s of
        (Throws m, s1) \<Rightarrow> (Some (EngineError m), s1)
      | (Returns _, s1) \<Rightarrow> (None, s1))"

text \<open>One iteration of the loop; \<open>Some e\<close> is an error that leaves \<^verbatim>\<open>execute\<close>.\<close>

definition playwright_item :: "engine \<Rightarrow> item \<Rightarrow> state \<Rightarrow> err option \<times> state" where
  "playwright_item eng it s =
     (case getNodeParameterReq it ''operation'' of
        Inl e \<Rightarrow> (Some e, s)
      | Inr operation \<Rightarrow>
          if operation = PStr ''executablePath'' then
            (case invoke eng ExecutablePath s of
               (Throws m, s1) \<Rightarrow> (Some (EngineError m), s1)
             | (Returns p, s1) \<Rightarrow> (None, push (Output operation (Some p) None) s1))
          else
            (let cdpUrl = getNodeParameter it ''cdpUrl'' (PStr []);
                 timeout = getNodeParameter it ''options.timeout'' (PNum 30000)
             in case pw_connect eng cdpUrl s of
                  (Some e, s1) \<Rightarrow> (Some e, s1)
                | (None, s1) \<Rightarrow> pw_finally eng (pw_catch (pw_switch eng it operation timeout s1))))"

fun pw_loop :: "engine \<Rightarrow> item list \<Rightarrow> state \<Rightarrow> err option \<times> state" where
  "pw_loop eng [] s = (None, s)"
| "pw_loop eng (it # its) s =
     (case playwright_item eng it s of
        (Some e, s1) \<Rightarrow> (Some e, s1)
      | (None, s1) \<Rightarrow> pw_loop eng its s1)"

text \<open>
  \<^verbatim>\<open>execute\<close>: the value returned (\<^verbatim>\<open>[results]\<close>) or the error raised, together with
  the calls made.
\<close>

definition playwright_execute ::
    "engine \<Rightarrow> item list \<Rightarrow> (err + node_data list list) \<times> event list" where
  "playwright_execute eng items =
     (case pw_loop eng items \<lparr>results = [], trace = []\<rparr> of
        (Some e, s) \<Rightarrow> (Inl e, trace s)
      | (None, s) \<Rightarrow> (Inr [results s], trace s))"

section \<open>The Stagehand node\<close>

text \<open>
  The object attached to the model input, as far as \<^verbatim>\<open>execute\<close> inspects it: each
  property may be absent, and \<^verbatim>\<open>model\<close> and \<^verbatim>\<open>apiKey\<close> may hold any primitive.
  \<open>None\<close> is \<^verbatim>\<open>undefined\<close>: nothing is attached.
\<close>

record connection =
  lc_namespace :: "string list option"
  model :: "pval option"
  apiKey :: "pval option"

definition isChatInstance :: "connection option \<Rightarrow> bool" where
  "isChatInstance m =
     (let namespace = (case m of None \<Rightarrow> []
                       | Some c \<Rightarrow> (case lc_namespace c of None \<Rightarrow> [] | Some ns \<Rightarrow> ns))
      in ''chat_models'' \<in> set namespace)"

text \<open>
  The five assertions ahead of the loop (lines 480 to 484), in order. On success the
  namespace, the model name and the key are known to be present and strings.
\<close>

definition assert_model :: "connection option \<Rightarrow> err + (string list \<times> string \<times> string)" where
  "assert_model m =
     (if \<not> isChatInstance m then Inl (AssertionFailed ''A Chat Model is required'')
      else case m of
        None \<Rightarrow> Inl (AssertionFailed ''A Chat Model is required'')
      | Some c \<Rightarrow>
          (case model c of
             None \<Rightarrow> Inl (AssertionFailed ''Model is not defined in the input connection data'')
           | Some mv \<Rightarrow>
               (case apiKey c of
                  None \<Rightarrow>
                    Inl (AssertionFailed ''API Key is not defined in the input connection data'')
                | Some kv \<Rightarrow>
                    (case mv of
                       PStr name \<Rightarrow>
                         (case kv of
                            PStr key \<Rightarrow>
                              Inr (case lc_namespace c of None \<Rightarrow> [] | Some ns \<Rightarrow> ns, name, key)
                          | _ \<Rightarrow> Inl (AssertionFailed ''API Key must be a string''))
                     | _ \<Rightarrow> Inl (AssertionFailed ''Model must be a string'')))))"

text \<open>\<^verbatim>\<open>s.includes(sub)\<close> on strings.\<close>

fun str_includes :: "string \<Rightarrow> string \<Rightarrow> bool" where
  "str_includes [] sub = (sub = [])"
| "str_includes (c # cs) sub = (take (length sub) (c # cs) = sub \<or> str_includes cs sub)"

definition modelName :: "string list \<Rightarrow> string \<Rightarrow> string" where
  "modelName namespace name =
     (let provider = (if str_includes name ''deepseek'' then ''deepseek''
                      else if 2 < length namespace then namespace ! 2 else ''undefined'')
      in provider @ ''/'' @ name)"

text \<open>
  An item of the Stagehand node: the primitive parameters, and the \<^verbatim>\<open>fields.field\<close>
  collection, which the host delivers as a list of \<^verbatim>\<open>Field\<close> objects.
\<close>

record sh_item =
  params :: item
  field_list :: "field_t list option"

text \<open>An awaited call whose value becomes \<^verbatim>\<open>json.result\<close> of the pushed record.\<close>

definition sh_step :: "engine \<Rightarrow> call \<Rightarrow> pval \<Rightarrow> state \<Rightarrow> err option \<times> state" where
  "sh_step eng c operation s =
     (case invoke eng c s of
        (Throws m, s1) \<Rightarrow> (Some (EngineError m), s1)
      | (Returns r, s1) \<Rightarrow> (None, push (Output operation (Some r) None) s1))"

text \<open>A schema obtained by evaluating generated or user code.\<close>

definition sh_foreign :: "engine \<Rightarrow> call \<Rightarrow> state \<Rightarrow> (err + ztype) \<times> state" where
  "sh_foreign eng c s =
     (case invoke eng c s of
        (Throws m, s1) \<Rightarrow> (Inl (EngineError m), s1)
      | (Returns code, s1) \<Rightarrow> (Inr (ZForeign code), s1))"

text \<open>The inner \<^verbatim>\<open>switch (schemaSource)\<close> of the extract case.\<close>

definition sh_schema :: "engine \<Rightarrow> sh_item \<Rightarrow> state \<Rightarrow> (err + ztype) \<times> state" where
  "sh_schema eng it s =
     (let schemaSource = getNodeParameter (params it) ''schemaSource'' (PStr ''example'')
      in if schemaSource = PStr ''fieldList'' then
           (fieldsToZodSchema (inherited_property eng)
              (case field_list it of None \<Rightarrow> [] | Some fs \<Rightarrow> fs), s)
         else if schemaSource = PStr ''example'' then
           (case getNodeParameterReq (params it) ''exampleJson'' of
              Inl e \<Rightarrow> (Inl e, s)
            | Inr example \<Rightarrow> sh_foreign eng (SchemaFromExample example) s)
         else if schemaSource = PStr ''jsonSchema'' then
           (case getNodeParameterReq (params it) ''jsonSchema'' of
              Inl e \<Rightarrow> (Inl e, s)
            | Inr jsonSchema \<Rightarrow> sh_foreign eng (SchemaFromJsonSchema jsonSchema) s)
         else if schemaSource = PStr ''manual'' then
           (case getNodeParameterReq (params it) ''manualZod'' of
              Inl e \<Rightarrow> (Inl e, s)
            | Inr zodCode \<Rightarrow> sh_foreign eng (SchemaFromZodCode zodCode) s)
         else (Inl (ApplicationError (''Unsupported schema source: '' @ render schemaSource)), s))"

definition sh_switch :: "engine \<Rightarrow> sh_item \<Rightarrow> pval \<Rightarrow> state \<Rightarrow> err option \<times> state" where
  "sh_switch eng it operation s =
     (if operation = PStr ''act'' then
        sh_step eng (Act (getNodeParameter (params it) ''instruction'' (PStr []))) operation s
      else if operation = PStr ''extract'' then
        (let instruction = getNodeParameter (params it) ''instruction'' (PStr [])
         in case sh_schema eng it s of
              (Inl e, s1) \<Rightarrow> (Some e, s1)
            | (Inr schema, s1) \<Rightarrow> sh_step eng (Extract instruction schema) operation s1)
      else if operation = PStr ''observe'' then
        sh_step eng (Observe (getNodeParameter (params it) ''instruction'' (PStr []))) operation s
      else (Some (ApplicationError (''Unsupported operation: '' @ render operation)), s))"

text \<open>
  \<^verbatim>\<open>try { ... } finally { await stagehand.close() }\<close> with no \<^verbatim>\<open>catch\<close>: the error
  of the body leaves after the close, unless the close raises itself.
\<close>

definition sh_finally :: "engine \<Rightarrow> err option \<times> state \<Rightarrow> err option \<times> state" where
  "sh_finally eng r =
     (case invoke eng StagehandClose (snd r) of
        (Throws m, s1) \<Rightarrow> (Some (EngineError m), s1)
      | (Returns _, s1) \<Rightarrow> (fst r, s1))"

definition stagehand_item ::
    "engine \<Rightarrow> string list \<times> string \<times> string \<Rightarrow> sh_item \<Rightarrow> state \<Rightarrow> err option \<times> state" where
  "stagehand_item eng cred it s =
     (case getNodeParameterReq (params it) ''operation'' of
        Inl e \<Rightarrow> (Some e, s)
      | Inr operation \<Rightarrow>
          (let cdpUrl = getNodeParameter (params it) ''cdpUrl'' (PStr []);
               enableCaching = getNodeParameter (params it) ''options.enableCaching'' (PBool True)
           in case invoke eng
                     (StagehandInit enableCaching (modelName (fst cred) (fst (snd cred)))
                        (snd (snd cred)) cdpUrl) s of
                (Throws m, s1) \<Rightarrow> (Some (EngineError m), s1)
              | (Returns _, s1) \<Rightarrow> sh_finally eng (sh_switch eng it operation s1)))"

fun sh_loop ::
    "engine \<Rightarrow> string list \<times> string \<times> string \<Rightarrow> sh_item list \<Rightarrow> state \<Rightarrow> err option \<times> state" where
  "sh_loop eng cred [] s = (None, s)"
| "sh_loop eng cred (it # its) s =
     (case stagehand_item eng cred it s of
        (Some e, s1) \<Rightarrow> (Some e, s1)
      | (None, s1) \<Rightarrow> sh_loop eng cred its s1)"

definition stagehand_execute ::
    "engine \<Rightarrow> connection option \<Rightarrow> sh_item list \<Rightarrow> (err + node_data list list) \<times> event list" where
  "stagehand_execute eng m items =
     (case assert_model m of
        Inl e \<Rightarrow> (Inl e, [])
      | Inr cred \<Rightarrow>
          (case sh_loop eng cred items \<lparr>results = [], trace = []\<rparr> of
             (Some e, s) \<Rightarrow> (Inl e, trace s)
           | (None, s) \<Rightarrow> (Inr [results s], trace s)))"

section \<open>Observing a run\<close>

text \<open>
  Session calls are the ones that open or close a session; everything else a body
  does is a page action, a schema evaluation or the binary helper.
\<close>

fun session_call :: "call \<Rightarrow> bool" where
  "session_call (ConnectOverCDP _) = True"
| "session_call NewContext = True"
| "session_call NewPage = True"
| "session_call BrowserClose = True"
| "session_call (StagehandInit _ _ _ _) = True"
| "session_call StagehandClose = True"
| "session_call _ = False"

fun call_of :: "event \<Rightarrow> call" where
  "call_of (Ev c _) = c"

fun returned :: "event \<Rightarrow> bool" where
  "returned (Ev _ (Returns _)) = True"
| "returned (Ev _ (Throws _)) = False"

text \<open>Successful connections, failed context or page creations, close calls.\<close>

fun connected :: "event \<Rightarrow> bool" where
  "connected (Ev (ConnectOverCDP _) (Returns _)) = True"
| "connected _ = False"

fun setup_failed :: "event \<Rightarrow> bool" where
  "setup_failed (Ev NewContext (Throws _)) = True"
| "setup_failed (Ev NewPage (Throws _)) = True"
| "setup_failed _ = False"

fun browser_closed :: "event \<Rightarrow> bool" where
  "browser_closed (Ev BrowserClose _) = True"
| "browser_closed _ = False"

fun initialized :: "event \<Rightarrow> bool" where
  "initialized (Ev (StagehandInit _ _ _ _) (Returns _)) = True"
| "initialized _ = False"

fun stagehand_closed :: "event \<Rightarrow> bool" where
  "stagehand_closed (Ev StagehandClose _) = True"
| "stagehand_closed _ = False"

fun acquire_call :: "call \<Rightarrow> bool" where
  "acquire_call (ConnectOverCDP _) = True"
| "acquire_call (StagehandInit _ _ _ _) = True"
| "acquire_call _ = False"

definition count_events :: "(event \<Rightarrow> bool) \<Rightarrow> event list \<Rightarrow> nat" where
  "count_events P tr = length (filter P tr)"

text \<open>
  A usable credential in the sense of the assertions: a chat model whose model name
  and key are strings.
\<close>

definition has_credential :: "connection option \<Rightarrow> bool" where
  "has_credential m =
     (case m of
        None \<Rightarrow> False
      | Some c \<Rightarrow>
          (case lc_namespace c of None \<Rightarrow> False | Some ns \<Rightarrow> ''chat_models'' \<in> set ns)
          \<and> (case model c of Some (PStr _) \<Rightarrow> True | _ \<Rightarrow> False)
          \<and> (case apiKey c of Some (PStr _) \<Rightarrow> True | _ \<Rightarrow> False))"

text \<open>
  The bound the node description declares for the screenshot quality
  (\<^verbatim>\<open>typeOptions: {minValue: 0, maxValue: 100}\<close>).
\<close>

definition quality_minValue :: int where
  "quality_minValue = 0"

definition quality_maxValue :: int where
  "quality_maxValue = 100"

text \<open>The operation identifiers each \<^verbatim>\<open>execute\<close> has a case for.\<close>

definition playwright_operations :: "string list" where
  "playwright_operations =
     [''executablePath'', ''goto'', ''screenshot'', ''click'', ''fill'', ''type'', ''selectOption'',
      ''press'', ''waitForTimeout'', ''waitForSelector'', ''waitForLoadState'', ''evaluate'']"

definition stagehand_operations :: "string list" where
  "stagehand_operations = [''act'', ''extract'', ''observe'']"

definition supported :: "string list \<Rightarrow> pval \<Rightarrow> bool" where
  "supported ops operation = (case operation of PStr name \<Rightarrow> name \<in> set ops | _ \<Rightarrow> False)"

text \<open>The record of a fill request relabelled as a type request.\<close>

fun retag :: "pval \<Rightarrow> node_data \<Rightarrow> node_data" where
  "retag operation (Output _ r b) = Output operation r b"
| "retag operation (Failed e) = Failed e"

text \<open>
  Two schema libraries for concrete inputs: one whose schema objects have no property
  that stands in the way of an assignment, and one whose schema objects inherit a
  getter named \<open>description\<close>.
\<close>

definition no_inherited :: "ztype \<Rightarrow> string \<Rightarrow> put" where
  "no_inherited p k = Creates"

definition description_getter :: "ztype \<Rightarrow> string \<Rightarrow> put" where
  "description_getter p k =
     (if k = ''description''
      then Rejects ''Cannot set property description of #<Object> which has only a getter''
      else Creates)"

text \<open>Engines used to run the nodes on concrete inputs.\<close>

definition ok_engine :: engine where
  "ok_engine = \<lparr>outcome_of = (\<lambda>tr c. Returns ''ok''), open_contexts = (\<lambda>tr. 1),
     open_pages = (\<lambda>tr. 1), inherited_property = no_inherited\<rparr>"

definition no_page_engine :: engine where
  "no_page_engine =
     \<lparr>outcome_of = (\<lambda>tr c. if c = NewPage then Throws ''Target closed'' else Returns ''ok''),
      open_contexts = (\<lambda>tr. 1), open_pages = (\<lambda>tr. 0), inherited_property = no_inherited\<rparr>"

definition refusing_engine :: engine where
  "refusing_engine =
     \<lparr>outcome_of = (\<lambda>tr c. case c of ConnectOverCDP _ \<Rightarrow> Throws ''connect ECONNREFUSED''
                                | _ \<Rightarrow> Returns ''ok''),
      open_contexts = (\<lambda>tr. 1), open_pages = (\<lambda>tr. 1), inherited_property = no_inherited\<rparr>"

definition failing_action_engine :: engine where
  "failing_action_engine =
     \<lparr>outcome_of = (\<lambda>tr c. if session_call c \<or> c = ExecutablePath then Returns ''ok''
                        else Throws ''Timeout exceeded''),
      open_contexts = (\<lambda>tr. 1), open_pages = (\<lambda>tr. 1), inherited_property = no_inherited\<rparr>"


definition chat_model :: connection where
  "chat_model = \<lparr>lc_namespace = Some [''langchain'', ''chat_models'', ''openai''],
     model = Some (PStr ''gpt-4o''), apiKey = Some (PStr ''sk-test'')\<rparr>"

text \<open>
  What the body of a \<^verbatim>\<open>try\<close> may do to the state: it adds events that are not
  session calls, and it pushes exactly one record, tagged with the operation, when it
  completes and none when it throws.
\<close>

definition body_effect :: "pval \<Rightarrow> state \<Rightarrow> err option \<times> state \<Rightarrow> bool" where
  "body_effect operation s r =
     (\<exists>evs. trace (snd r) = trace s @ evs \<and> (\<forall>e\<in>set evs. \<not> session_call (call_of e))
        \<and> (case fst r of
              None \<Rightarrow> (\<exists>res bin. results (snd r) = results s @ [Output operation res bin])
            | Some e \<Rightarrow> results (snd r) = results s))"

text \<open>
  Bookkeeping of sessions over a trace. For the Playwright node every successful
  connection is matched by a close call or by a failed context or page creation; for
  the Stagehand node every successful initialisation is matched by a close call.
\<close>

definition balanced :: "event list \<Rightarrow> bool" where
  "balanced tr \<longleftrightarrow>
     count_events connected tr = count_events browser_closed tr + count_events setup_failed tr"

definition sh_balanced :: "event list \<Rightarrow> bool" where
  "sh_balanced tr \<longleftrightarrow> count_events initialized tr = count_events stagehand_closed tr"


section \<open>Field lists\<close>

lemma overwrite_map_of:
  "map_of (overwrite k v ps) = (if k \<in> fst ` set ps then (map_of ps)(k \<mapsto> v) else map_of ps)"
  by (induction ps) (auto simp: fun_eq_iff)

lemma overwrite_keys: "map fst (overwrite k v ps) = map fst ps"
  by (induction ps) auto

lemma insert_index_keys: "fst ` set (insert_index n k v ps) = insert k (fst ` set ps)"
  by (induction ps) (auto split: option.splits)

lemma insert_index_distinct:
  "k \<notin> fst ` set ps \<Longrightarrow> distinct (map fst ps) \<Longrightarrow> distinct (map fst (insert_index n k v ps))"
  by (induction ps) (auto simp: insert_index_keys split: option.splits)

lemma insert_index_map_of:
  "k \<notin> fst ` set ps \<Longrightarrow> map_of (insert_index n k v ps) = (map_of ps)(k \<mapsto> v)"
  by (induction ps) (auto simp: fun_eq_iff split: option.splits)

lemma append_map_of:
  "k \<notin> fst ` set ps \<Longrightarrow> map_of (ps @ [(k, v)]) = (map_of ps)(k \<mapsto> v)"
  by (induction ps) (auto simp: fun_eq_iff)

lemma define_own_map_of:
  "k \<notin> fst ` set ps \<Longrightarrow> map_of (define_own k v ps) = (map_of ps)(k \<mapsto> v)"
  by (simp add: define_own_def insert_index_map_of append_map_of del: map_of_append
      split: option.splits)

lemma define_own_keys: "fst ` set (define_own k v ps) = insert k (fst ` set ps)"
  by (auto simp: define_own_def insert_index_keys split: option.splits)

lemma define_own_distinct:
  "k \<notin> fst ` set ps \<Longrightarrow> distinct (map fst ps) \<Longrightarrow> distinct (map fst (define_own k v ps))"
  by (auto simp: define_own_def insert_index_distinct split: option.splits)

text \<open>One assignment: the keys stay distinct, and only the assigned name can be added.\<close>

lemma assign_cases:
  assumes "assign inherited k v shape = Inr shape'"
  obtains (overwritten) "k \<in> fst ` set (own shape)" "own shape' = overwrite k v (own shape)"
    | (unchanged) "own shape' = own shape"
    | (created) "k \<notin> fst ` set (own shape)" "k \<noteq> ''__proto__''"
        "own shape' = define_own k v (own shape)"
  using assms
  by (auto simp: assign_def split: if_splits option.splits put.splits)

lemma assign_keys:
  assumes "assign inherited k v shape = Inr shape'"
  shows "distinct (map fst (own shape)) \<Longrightarrow> distinct (map fst (own shape'))"
    and "fst ` set (own shape') \<subseteq> fst ` set (own shape) \<union> ({k} - {''__proto__''})"
proof -
  have o: "fst ` set (overwrite k v (own shape)) = fst ` set (own shape)"
    using overwrite_keys [of k v "own shape"] by (metis set_map)
  show "distinct (map fst (own shape)) \<Longrightarrow> distinct (map fst (own shape'))"
    using assms by (cases rule: assign_cases) (simp_all add: overwrite_keys define_own_distinct)
  from assms show "fst ` set (own shape') \<subseteq> fst ` set (own shape) \<union> ({k} - {''__proto__''})"
  proof (cases rule: assign_cases)
    case overwritten
    with o show ?thesis by simp
  next
    case unchanged
    then show ?thesis by simp
  next
    case created
    then show ?thesis by (simp add: define_own_keys)
  qed
qed

text \<open>An assignment to another name leaves the entry of a name as it is.\<close>

lemma assign_other:
  assumes "assign inherited k v shape = Inr shape'" "n \<noteq> k"
  shows "map_of (own shape') n = map_of (own shape) n"
  using assms
  by (auto simp: assign_def overwrite_map_of define_own_map_of
      split: if_splits option.splits put.splits)

text \<open>On an object that still has its original prototype, every assignment succeeds.\<close>

lemma assign_plain:
  assumes "proto shape = None" "k \<noteq> ''__proto__''"
  shows "\<exists>shape'. assign inherited k v shape = Inr shape' \<and> proto shape' = None
           \<and> map_of (own shape') = (map_of (own shape))(k \<mapsto> v)
           \<and> fst ` set (own shape') = insert k (fst ` set (own shape))"
proof -
  have o: "fst ` set (overwrite k v (own shape)) = fst ` set (own shape)"
    using overwrite_keys [of k v "own shape"] by (metis set_map)
  show ?thesis
    using assms o
    by (auto simp: assign_def overwrite_map_of define_own_map_of define_own_keys)
qed

lemma fieldsLoop_append:
  "fieldsLoop inherited (xs @ ys) shape
   = (case fieldsLoop inherited xs shape of
        Inl e \<Rightarrow> Inl e
      | Inr shape' \<Rightarrow> fieldsLoop inherited ys shape')"
  by (induction xs arbitrary: shape) (auto split: sum.splits)

lemma fieldsLoop_other:
  "fieldsLoop inherited fs shape = Inr shape' \<Longrightarrow> n \<notin> fieldName ` set fs \<Longrightarrow>
     map_of (own shape') n = map_of (own shape) n"
proof (induction fs arbitrary: shape)
  case Nil
  then show ?case by simp
next
  case (Cons f fs)
  from Cons.prems(1) obtain shape1 where
    a: "assign inherited (fieldName f) (fieldEntry f) shape = Inr shape1"
    and l: "fieldsLoop inherited fs shape1 = Inr shape'"
    by (auto split: sum.splits)
  from Cons.prems(2) have "n \<noteq> fieldName f" "n \<notin> fieldName ` set fs"
    by auto
  with Cons.IH [OF l] assign_other [OF a] show ?case
    by simp
qed

lemma fieldsLoop_keys:
  "fieldsLoop inherited fs shape = Inr shape' \<Longrightarrow> distinct (map fst (own shape)) \<Longrightarrow>
     distinct (map fst (own shape'))
     \<and> fst ` set (own shape') \<subseteq> fst ` set (own shape) \<union> (fieldName ` set fs - {''__proto__''})"
proof (induction fs arbitrary: shape)
  case Nil
  then show ?case by auto
next
  case (Cons f fs)
  from Cons.prems(1) obtain shape1 where
    a: "assign inherited (fieldName f) (fieldEntry f) shape = Inr shape1"
    and l: "fieldsLoop inherited fs shape1 = Inr shape'"
    by (auto split: sum.splits)
  note k = assign_keys [OF a]
  from Cons.IH [OF l k(1) [OF Cons.prems(2)]]
  have d: "distinct (map fst (own shape'))"
    and s: "fst ` set (own shape') \<subseteq> fst ` set (own shape1) \<union> (fieldName ` set fs - {''__proto__''})"
    by simp_all
  have "fieldName ` set (f # fs) = insert (fieldName f) (fieldName ` set fs)"
    by simp
  with s k(2) have "fst ` set (own shape')
      \<subseteq> fst ` set (own shape) \<union> (fieldName ` set (f # fs) - {''__proto__''})"
    by blast
  with d show ?case
    by simp
qed

lemma fieldsLoop_plain:
  "proto shape = None \<Longrightarrow> ''__proto__'' \<notin> fieldName ` set fs \<Longrightarrow>
     \<exists>shape'. fieldsLoop inherited fs shape = Inr shape' \<and> proto shape' = None
       \<and> fst ` set (own shape') = fst ` set (own shape) \<union> fieldName ` set fs"
proof (induction fs arbitrary: shape)
  case Nil
  then show ?case by simp
next
  case (Cons f fs)
  from Cons.prems have n: "fieldName f \<noteq> ''__proto__''" "''__proto__'' \<notin> fieldName ` set fs"
    by auto
  from assign_plain [OF Cons.prems(1) n(1), of inherited "fieldEntry f"] obtain shape1 where
    a: "assign inherited (fieldName f) (fieldEntry f) shape = Inr shape1" "proto shape1 = None"
      "fst ` set (own shape1) = insert (fieldName f) (fst ` set (own shape))"
    by blast
  from Cons.IH [OF a(2) n(2)] a(1) a(3) show ?case
    by auto
qed

text \<open>The definitions that evaluate the schema of a concrete field list.\<close>

lemmas shape_defs =
  fieldsToZodSchema_def fieldEntry_def zTypeOf_def fieldOf_def assign_def define_own_def
  array_index_def decimal_def no_inherited_def description_getter_def

text \<open>
  Array indices are enumerated first, in numeric order, whatever the order of the field
  list; \<open>02\<close> is no array index and keeps its place.
\<close>

lemma fieldsToZodSchema_index_keys_first:
  "fieldsToZodSchema no_inherited
     [\<lparr>fieldName = ''b'', fieldType = ''string'', optional = False\<rparr>,
      \<lparr>fieldName = ''10'', fieldType = ''number'', optional = False\<rparr>,
      \<lparr>fieldName = ''02'', fieldType = ''boolean'', optional = False\<rparr>,
      \<lparr>fieldName = ''2'', fieldType = ''number'', optional = True\<rparr>]
   = Inr (ZObject [(''2'', ZOptional ZNumber), (''10'', ZNumber), (''b'', ZString),
                  (''02'', ZBoolean)] False)"
  by (simp add: shape_defs)

text \<open>
  After an entry named \<^verbatim>\<open>__proto__\<close> the library decides: \<open>title\<close> is created, the
  assignment of \<open>description\<close> raises.
\<close>

lemma fieldsToZodSchema_inherited_getter:
  "fieldsToZodSchema description_getter
     [\<lparr>fieldName = ''__proto__'', fieldType = ''string'', optional = False\<rparr>,
      \<lparr>fieldName = ''title'', fieldType = ''string'', optional = False\<rparr>,
      \<lparr>fieldName = ''description'', fieldType = ''string'', optional = False\<rparr>]
   = Inl (TypeError ''Cannot set property description of #<Object> which has only a getter'')"
  by (simp add: shape_defs)

text \<open>
  Claim C9. The field names of every schema resolved from a field list are pairwise
  distinct, whatever the list and the library: a name that occurs twice in the
  descriptor overwrites its earlier entry instead of adding a second key, and the
  names of the schema are names of the list other than \<^verbatim>\<open>__proto__\<close>. A list without
  an entry of that name always resolves, to a schema whose names are exactly the names
  of the list.
\<close>

theorem fieldsToZodSchema_names_distinct:
  "(\<forall>z. fieldsToZodSchema inherited fs = Inr z \<longrightarrow>
         distinct (map fst (shapeOf z))
         \<and> set (map fst (shapeOf z)) \<subseteq> fieldName ` set fs - {''__proto__''})
   \<and> (''__proto__'' \<notin> fieldName ` set fs \<longrightarrow>
        (\<exists>z. fieldsToZodSchema inherited fs = Inr z \<and> distinct (map fst (shapeOf z))
           \<and> set (map fst (shapeOf z)) = fieldName ` set fs))"
proof (intro conjI allI impI)
  fix z
  assume "fieldsToZodSchema inherited fs = Inr z"
  then obtain shape where l: "fieldsLoop inherited fs \<lparr>own = [], proto = None\<rparr> = Inr shape"
    and z: "z = ZObject (own shape) False"
    by (auto simp: fieldsToZodSchema_def split: sum.splits)
  from fieldsLoop_keys [OF l] z
  show "distinct (map fst (shapeOf z))"
    and "set (map fst (shapeOf z)) \<subseteq> fieldName ` set fs - {''__proto__''}"
    by auto
next
  assume "''__proto__'' \<notin> fieldName ` set fs"
  from fieldsLoop_plain [OF _ this, of "\<lparr>own = [], proto = None\<rparr>" inherited] obtain shape where
    l: "fieldsLoop inherited fs \<lparr>own = [], proto = None\<rparr> = Inr shape"
    and k: "fst ` set (own shape) = fieldName ` set fs"
    by auto
  from fieldsLoop_keys [OF l] have "distinct (map fst (own shape))"
    by simp
  with l k show "\<exists>z. fieldsToZodSchema inherited fs = Inr z \<and> distinct (map fst (shapeOf z))
           \<and> set (map fst (shapeOf z)) = fieldName ` set fs"
    by (simp add: fieldsToZodSchema_def)
qed

text \<open>A list that names \<open>a\<close> twice and has an array index among its names.\<close>

theorem fieldsToZodSchema_names_distinct_witness:
  "''__proto__'' \<notin> fieldName `
       set [\<lparr>fieldName = ''a'', fieldType = ''string'', optional = False\<rparr>,
            \<lparr>fieldName = ''a'', fieldType = ''number'', optional = False\<rparr>,
            \<lparr>fieldName = ''1'', fieldType = ''boolean'', optional = False\<rparr>]
   \<and> fieldsToZodSchema description_getter
         [\<lparr>fieldName = ''a'', fieldType = ''string'', optional = False\<rparr>,
          \<lparr>fieldName = ''a'', fieldType = ''number'', optional = False\<rparr>,
          \<lparr>fieldName = ''1'', fieldType = ''boolean'', optional = False\<rparr>]
       = Inr (ZObject [(''1'', ZBoolean), (''a'', ZNumber)] False)
   \<and> distinct (map fst (shapeOf (ZObject [(''1'', ZBoolean), (''a'', ZNumber)] False)))
   \<and> set (map fst (shapeOf (ZObject [(''1'', ZBoolean), (''a'', ZNumber)] False)))
       \<subseteq> fieldName `
           set [\<lparr>fieldName = ''a'', fieldType = ''string'', optional = False\<rparr>,
                \<lparr>fieldName = ''a'', fieldType = ''number'', optional = False\<rparr>,
                \<lparr>fieldName = ''1'', fieldType = ''boolean'', optional = False\<rparr>]
         - {''__proto__''}"
proof -
  let ?fs = "[\<lparr>fieldName = ''a'', fieldType = ''string'', optional = False\<rparr>,
              \<lparr>fieldName = ''a'', fieldType = ''number'', optional = False\<rparr>,
              \<lparr>fieldName = ''1'', fieldType = ''boolean'', optional = False\<rparr>]"
  let ?z = "ZObject [(''1'', ZBoolean), (''a'', ZNumber)] False"
  have h: "''__proto__'' \<notin> fieldName ` set ?fs"
    by simp
  have r: "fieldsToZodSchema description_getter ?fs = Inr ?z"
    by (simp add: shape_defs)
  from fieldsToZodSchema_names_distinct [of description_getter ?fs] r
  have "distinct (map fst (shapeOf ?z))"
    and "set (map fst (shapeOf ?z)) \<subseteq> fieldName ` set ?fs - {''__proto__''}"
    by blast+
  with h r show ?thesis
    by blast
qed

text \<open>
  Claim C5, as stated, at two lists. The first names \<open>a\<close> twice: its first entry says
  \<open>string\<close>, yet the schema holds a single field \<open>a\<close>, of kind number. The second
  ends with an entry named \<^verbatim>\<open>__proto__\<close>: the schema holds the two other fields and no
  field of that name.
\<close>

theorem fieldsToZodSchema_shadowed_entry:
  "fieldsToZodSchema no_inherited
     [\<lparr>fieldName = ''a'', fieldType = ''string'', optional = False\<rparr>,
      \<lparr>fieldName = ''a'', fieldType = ''number'', optional = False\<rparr>]
   = Inr (ZObject [(''a'', ZNumber)] False)
   \<and> fieldOf (ZObject [(''a'', ZNumber)] False) ''a'' \<noteq> Some ZString
   \<and> fieldsToZodSchema no_inherited
       [\<lparr>fieldName = ''a'', fieldType = ''string'', optional = False\<rparr>,
        \<lparr>fieldName = ''c'', fieldType = ''number'', optional = False\<rparr>,
        \<lparr>fieldName = ''__proto__'', fieldType = ''string'', optional = False\<rparr>]
     = Inr (ZObject [(''a'', ZString), (''c'', ZNumber)] False)
   \<and> fieldOf (ZObject [(''a'', ZString), (''c'', ZNumber)] False) ''__proto__'' = None"
  by (simp add: shape_defs)

text \<open>
  Claim C5, amended. Every entry of a field list whose name is not repeated by a later
  entry, and which neither is named \<^verbatim>\<open>__proto__\<close> nor comes after an entry of that name,
  is the field of that name, of the stated kind, in every schema the list resolves to:
  \<open>string\<close>, \<open>number\<close> and \<open>boolean\<close> map to the primitive, \<open>array\<close> to an array of
  unconstrained elements, \<open>object\<close> to an empty object that lets unknown properties
  through, and the field is wrapped as optional exactly when the flag is set. The list
  resolves to a schema whenever no later entry is named \<^verbatim>\<open>__proto__\<close> either. The list
  of the specification (a required string \<open>title\<close>, an optional array \<open>tags\<close>) resolves
  as it says.
\<close>

theorem fieldsToZodSchema_entry:
  assumes "fieldName f \<notin> fieldName ` set post"
    and "''__proto__'' \<notin> fieldName ` set (pre @ [f])"
  shows "(\<forall>z. fieldsToZodSchema inherited (pre @ f # post) = Inr z \<longrightarrow>
            fieldOf z (fieldName f)
            = Some (if optional f then ZOptional (zTypeOf (fieldType f)) else zTypeOf (fieldType f)))
     \<and> (''__proto__'' \<notin> fieldName ` set post \<longrightarrow>
          (\<exists>z. fieldsToZodSchema inherited (pre @ f # post) = Inr z))
     \<and> zTypeOf ''string'' = ZString \<and> zTypeOf ''number'' = ZNumber
     \<and> zTypeOf ''boolean'' = ZBoolean \<and> zTypeOf ''array'' = ZArray ZAny
     \<and> zTypeOf ''object'' = ZObject [] True
     \<and> fieldsToZodSchema inherited
           [\<lparr>fieldName = ''title'', fieldType = ''string'', optional = False\<rparr>,
            \<lparr>fieldName = ''tags'', fieldType = ''array'', optional = True\<rparr>]
         = Inr (ZObject [(''title'', ZString), (''tags'', ZOptional (ZArray ZAny))] False)"
proof -
  let ?init = "\<lparr>own = [], proto = None\<rparr>"
  from assms(2) have np: "''__proto__'' \<notin> fieldName ` set pre" and nf: "fieldName f \<noteq> ''__proto__''"
    by auto
  from fieldsLoop_plain [OF _ np, of ?init inherited] obtain shape1 where
    l1: "fieldsLoop inherited pre ?init = Inr shape1" and p1: "proto shape1 = None"
    by auto
  from assign_plain [OF p1 nf, of inherited "fieldEntry f"] obtain shape2 where
    a: "assign inherited (fieldName f) (fieldEntry f) shape1 = Inr shape2"
    and p2: "proto shape2 = None"
    and m: "map_of (own shape2) = (map_of (own shape1))(fieldName f \<mapsto> fieldEntry f)"
    by blast
  have run: "fieldsLoop inherited (pre @ f # post) ?init = fieldsLoop inherited post shape2"
    by (simp add: fieldsLoop_append l1 a)
  have entry: "fieldOf z (fieldName f) = Some (fieldEntry f)"
    if "fieldsToZodSchema inherited (pre @ f # post) = Inr z" for z
  proof -
    from that run obtain shape where l: "fieldsLoop inherited post shape2 = Inr shape"
      and z: "z = ZObject (own shape) False"
      by (auto simp: fieldsToZodSchema_def split: sum.splits)
    from fieldsLoop_other [OF l assms(1)] m z show ?thesis
      by (simp add: fieldOf_def)
  qed
  have total: "\<exists>z. fieldsToZodSchema inherited (pre @ f # post) = Inr z"
    if "''__proto__'' \<notin> fieldName ` set post"
  proof -
    from fieldsLoop_plain [OF p2 that, of inherited] obtain shape where
      "fieldsLoop inherited post shape2 = Inr shape"
      by blast
    with run show ?thesis
      by (simp add: fieldsToZodSchema_def)
  qed
  have example: "fieldsToZodSchema inherited
           [\<lparr>fieldName = ''title'', fieldType = ''string'', optional = False\<rparr>,
            \<lparr>fieldName = ''tags'', fieldType = ''array'', optional = True\<rparr>]
         = Inr (ZObject [(''title'', ZString), (''tags'', ZOptional (ZArray ZAny))] False)"
    by (simp add: shape_defs)
  from entry total example show ?thesis
    by (simp add: fieldEntry_def zTypeOf_def)
qed

text \<open>
  An entry \<open>b\<close> that overwrites an earlier one and is followed by another name, in a
  library whose schema objects inherit a getter.
\<close>

theorem fieldsToZodSchema_entry_witness:
  "fieldName \<lparr>fieldName = ''b'', fieldType = ''object'', optional = True\<rparr>
     \<notin> fieldName ` set [\<lparr>fieldName = ''c'', fieldType = ''boolean'', optional = False\<rparr>]
   \<and> ''__proto__'' \<notin> fieldName `
         set ([\<lparr>fieldName = ''b'', fieldType = ''number'', optional = False\<rparr>]
              @ [\<lparr>fieldName = ''b'', fieldType = ''object'', optional = True\<rparr>])
   \<and> ''__proto__'' \<notin> fieldName `
         set [\<lparr>fieldName = ''c'', fieldType = ''boolean'', optional = False\<rparr>]
   \<and> fieldsToZodSchema description_getter
         [\<lparr>fieldName = ''b'', fieldType = ''number'', optional = False\<rparr>,
          \<lparr>fieldName = ''b'', fieldType = ''object'', optional = True\<rparr>,
          \<lparr>fieldName = ''c'', fieldType = ''boolean'', optional = False\<rparr>]
       = Inr (ZObject [(''b'', ZOptional (ZObject [] True)), (''c'', ZBoolean)] False)
   \<and> fieldOf (ZObject [(''b'', ZOptional (ZObject [] True)), (''c'', ZBoolean)] False) ''b''
       = Some (ZOptional (ZObject [] True))"
proof -
  let ?pre = "[\<lparr>fieldName = ''b'', fieldType = ''number'', optional = False\<rparr>]"
  let ?f = "\<lparr>fieldName = ''b'', fieldType = ''object'', optional = True\<rparr>"
  let ?post = "[\<lparr>fieldName = ''c'', fieldType = ''boolean'', optional = False\<rparr>]"
  let ?z = "ZObject [(''b'', ZOptional (ZObject [] True)), (''c'', ZBoolean)] False"
  have h: "fieldName ?f \<notin> fieldName ` set ?post"
    by simp
  have n: "''__proto__'' \<notin> fieldName ` set (?pre @ [?f])"
    by simp
  have p: "''__proto__'' \<notin> fieldName ` set ?post"
    by simp
  have r: "fieldsToZodSchema description_getter (?pre @ ?f # ?post) = Inr ?z"
    by (simp add: shape_defs)
  from fieldsToZodSchema_entry [OF h n, of description_getter] r
  have "fieldOf ?z (fieldName ?f)
        = Some (if optional ?f then ZOptional (zTypeOf (fieldType ?f)) else zTypeOf (fieldType ?f))"
    by blast
  then have e: "fieldOf ?z ''b'' = Some (ZOptional (ZObject [] True))"
    by (simp add: zTypeOf_def)
  from r have r': "fieldsToZodSchema description_getter
         [\<lparr>fieldName = ''b'', fieldType = ''number'', optional = False\<rparr>,
          \<lparr>fieldName = ''b'', fieldType = ''object'', optional = True\<rparr>,
          \<lparr>fieldName = ''c'', fieldType = ''boolean'', optional = False\<rparr>] = Inr ?z"
    by simp
  from h n p r' e show ?thesis
    by blast
qed

section \<open>Effects of the operation bodies\<close>

lemma getNodeParameterReq_Inr:
  "getNodeParameterReq it name = Inr v \<longleftrightarrow> map_of it name = Some v"
  by (auto simp: getNodeParameterReq_def split: option.splits)

lemma push_simps [simp]: "trace (push r s) = trace s" "results (push r s) = results s @ [r]"
  by (simp_all add: push_def)

lemma pw_step_body:
  "\<not> session_call c \<Longrightarrow> body_effect operation s (pw_step eng c operation s)"
  unfolding body_effect_def
  by (auto simp: pw_step_def invoke_def Let_def split: outcome.splits)

lemma pw_screenshot_body:
  "body_effect operation s
     (case invoke eng (Screenshot fp q t) s of
        (Throws m, s1) \<Rightarrow> (Some (EngineError m), s1)
      | (Returns screenshot, s1) \<Rightarrow>
          (case invoke eng (PrepareBinaryData screenshot) s1 of
             (Throws m, s2) \<Rightarrow> (Some (EngineError m), s2)
           | (Returns b, s2) \<Rightarrow> (None, push (Output operation None (Some b)) s2)))"
  unfolding body_effect_def
  by (auto simp: invoke_def Let_def split: outcome.splits)

lemma body_effect_throw: "body_effect operation s (Some e, s)"
  by (simp add: body_effect_def)

lemma body_effect_if:
  "(c \<Longrightarrow> body_effect operation s a) \<Longrightarrow> (\<not> c \<Longrightarrow> body_effect operation s b) \<Longrightarrow>
     body_effect operation s (if c then a else b)"
  by simp

lemma pw_switch_body: "body_effect operation s (pw_switch eng it operation timeout s)"
  unfolding pw_switch_def Let_def
  by (intro body_effect_if pw_step_body pw_screenshot_body body_effect_throw) simp_all

lemma body_effect_seq:
  assumes "results s1 = results s"
    and "\<exists>evs. trace s1 = trace s @ evs \<and> (\<forall>e\<in>set evs. \<not> session_call (call_of e))"
    and "body_effect operation s1 r"
  shows "body_effect operation s r"
  using assms unfolding body_effect_def
  by (cases "fst r") fastforce+

lemma sh_step_body:
  "\<not> session_call c \<Longrightarrow> body_effect operation s (sh_step eng c operation s)"
  unfolding body_effect_def
  by (auto simp: sh_step_def invoke_def Let_def split: outcome.splits)

lemma sh_foreign_effect:
  "\<not> session_call c \<Longrightarrow> sh_foreign eng c s = (r, s1) \<Longrightarrow>
     results s1 = results s
     \<and> (\<exists>evs. trace s1 = trace s @ evs \<and> (\<forall>e\<in>set evs. \<not> session_call (call_of e)))"
  by (auto simp: sh_foreign_def invoke_def Let_def split: outcome.splits)

lemma sh_schema_effect:
  assumes "sh_schema eng it s = (r, s1)"
  shows "results s1 = results s
     \<and> (\<exists>evs. trace s1 = trace s @ evs \<and> (\<forall>e\<in>set evs. \<not> session_call (call_of e)))"
  using assms
  by (auto simp: sh_schema_def Let_def split: if_splits sum.splits
      dest!: sh_foreign_effect [rotated])

lemma sh_extract_body:
  "body_effect operation s
     (case sh_schema eng it s of
        (Inl e, s1) \<Rightarrow> (Some e, s1)
      | (Inr schema, s1) \<Rightarrow> sh_step eng (Extract instruction schema) operation s1)"
proof (cases "sh_schema eng it s")
  case (Pair r s1)
  note eff = sh_schema_effect [OF Pair]
  show ?thesis
  proof (cases r)
    case (Inl e)
    with Pair eff show ?thesis
      by (auto intro: body_effect_seq [OF _ _ body_effect_throw])
  next
    case (Inr schema)
    with Pair eff show ?thesis
      by (auto intro: body_effect_seq [OF _ _ sh_step_body])
  qed
qed

lemma sh_switch_body: "body_effect operation s (sh_switch eng it operation s)"
  unfolding sh_switch_def Let_def
  by (intro body_effect_if sh_step_body sh_extract_body body_effect_throw) simp_all

lemma body_event_kinds:
  assumes "\<not> session_call (call_of e)"
  shows "\<not> connected e \<and> \<not> setup_failed e \<and> \<not> browser_closed e \<and> \<not> initialized e
     \<and> \<not> stagehand_closed e \<and> \<not> acquire_call (call_of e)"
proof (cases e)
  case (Ev c out)
  with assms show ?thesis by (cases c; cases out) simp_all
qed

lemma filter_body:
  assumes "\<forall>e\<in>set evs. \<not> session_call (call_of e)"
  shows "filter connected evs = []" "filter setup_failed evs = []"
    "filter browser_closed evs = []" "filter initialized evs = []"
    "filter stagehand_closed evs = []"
  using assms by (auto simp: filter_empty_conv dest: body_event_kinds)

section \<open>One item of the Playwright node\<close>

lemma pw_connect_effect:
  assumes "pw_connect eng u s = (r, s1)"
  shows "results s1 = results s"
    and "\<exists>evs. trace s1
             = trace s @ Ev (ConnectOverCDP u) (outcome_of eng (trace s) (ConnectOverCDP u)) # evs
           \<and> (\<forall>e\<in>set evs. call_of e = NewContext \<or> call_of e = NewPage)"
  using assms
  by (auto simp: pw_connect_def invoke_def Let_def split: outcome.splits if_splits)

lemma pw_connect_counts:
  assumes "pw_connect eng u s = (r, s1)"
  shows "count_events browser_closed (trace s1) = count_events browser_closed (trace s)"
    and "count_events connected (trace s1) + count_events setup_failed (trace s)
         = count_events connected (trace s) + count_events setup_failed (trace s1)
           + (if r = None then 1 else 0)"
  using assms
  by (auto simp: pw_connect_def invoke_def Let_def count_events_def
      split: outcome.splits if_splits)

lemma pw_catch_effect:
  "body_effect operation s r \<Longrightarrow>
     \<exists>evs x. trace (pw_catch r) = trace s @ evs \<and> (\<forall>e\<in>set evs. \<not> session_call (call_of e))
        \<and> results (pw_catch r) = results s @ [x]
        \<and> (case fst r of None \<Rightarrow> (\<exists>res bin. x = Output operation res bin)
            | Some e \<Rightarrow> x = Failed e)"
  by (cases r) (auto simp: body_effect_def pw_catch_def split: option.splits)

lemma pw_catch_trace [simp]: "trace (pw_catch r) = trace (snd r)"
  by (cases r) (simp add: pw_catch_def split: option.splits)

lemma pw_finally_effect:
  "pw_finally eng s = (r, s1) \<Longrightarrow>
     results s1 = results s
     \<and> trace s1 = trace s @ [Ev BrowserClose (outcome_of eng (trace s) BrowserClose)]
     \<and> (r = None \<longleftrightarrow> (\<exists>v. outcome_of eng (trace s) BrowserClose = Returns v))"
  by (auto simp: pw_finally_def invoke_def Let_def split: outcome.splits)

lemma pw_finally_results [simp]: "results (snd (pw_finally eng s)) = results s"
  by (simp add: pw_finally_def invoke_def Let_def split: outcome.splits)

lemma pw_finally_trace:
  "trace (snd (pw_finally eng s)) = trace s @ [Ev BrowserClose (outcome_of eng (trace s) BrowserClose)]"
  by (simp add: pw_finally_def invoke_def Let_def split: outcome.splits)

lemma pw_finally_fst:
  "trace s' = trace s \<Longrightarrow> fst (pw_finally eng s') = fst (pw_finally eng s)"
  by (simp add: pw_finally_def invoke_def Let_def split: outcome.splits)

lemma playwright_item_session:
  assumes op: "getNodeParameterReq it ''operation'' = Inr operation"
      "operation \<noteq> PStr ''executablePath''"
    and conn: "pw_connect eng (getNodeParameter it ''cdpUrl'' (PStr [])) s = (None, s1)"
  shows "\<exists>body oc x. trace (snd (playwright_item eng it s)) = trace s1 @ body @ [Ev BrowserClose oc]
           \<and> (\<forall>e\<in>set body. \<not> session_call (call_of e))
           \<and> results (snd (playwright_item eng it s)) = results s @ [x]
           \<and> ((\<exists>res bin. x = Output operation res bin) \<or> (\<exists>e. x = Failed e))
           \<and> (fst (playwright_item eng it s) = None \<longleftrightarrow> returned (Ev BrowserClose oc))"
proof -
  let ?t = "getNodeParameter it ''options.timeout'' (PNum 30000)"
  let ?b = "pw_switch eng it operation ?t s1"
  obtain evs x where b: "trace (pw_catch ?b) = trace s1 @ evs"
      "\<forall>e\<in>set evs. \<not> session_call (call_of e)" "results (pw_catch ?b) = results s1 @ [x]"
      "(\<exists>res bin. x = Output operation res bin) \<or> (\<exists>e. x = Failed e)"
    using pw_catch_effect [OF pw_switch_body [of operation s1 eng it ?t]]
    by (auto split: option.splits)
  obtain r s3 where f: "pw_finally eng (pw_catch ?b) = (r, s3)"
    by (cases "pw_finally eng (pw_catch ?b)")
  have item: "playwright_item eng it s = (r, s3)"
    using op conn f by (simp add: playwright_item_def Let_def)
  from pw_finally_effect [OF f] pw_connect_effect(1) [OF conn] b item show ?thesis
    by (cases "outcome_of eng (trace (pw_catch ?b)) BrowserClose") auto
qed

lemma playwright_item_balanced:
  assumes "balanced (trace s)"
  shows "balanced (trace (snd (playwright_item eng it s)))"
proof (cases "getNodeParameterReq it ''operation''")
  case (Inl e)
  then show ?thesis using assms by (simp add: playwright_item_def)
next
  case (Inr operation)
  show ?thesis
  proof (cases "operation = PStr ''executablePath''")
    case True
    then show ?thesis using assms Inr
      by (auto simp: playwright_item_def invoke_def Let_def balanced_def count_events_def
          split: outcome.splits)
  next
    case False
    obtain r s1 where c: "pw_connect eng (getNodeParameter it ''cdpUrl'' (PStr [])) s = (r, s1)"
      by (cases "pw_connect eng (getNodeParameter it ''cdpUrl'' (PStr [])) s")
    show ?thesis
    proof (cases r)
      case None
      with playwright_item_session [OF Inr False] c
      obtain body oc where
        t: "trace (snd (playwright_item eng it s)) = trace s1 @ body @ [Ev BrowserClose oc]"
          "\<forall>e\<in>set body. \<not> session_call (call_of e)"
        by blast
      from pw_connect_counts [OF c] None assms filter_body [OF t(2)] show ?thesis
        by (simp add: t(1) balanced_def count_events_def)
    next
      case (Some e)
      with c Inr False have "playwright_item eng it s = (Some e, s1)"
        by (simp add: playwright_item_def Let_def)
      with pw_connect_counts [OF c] Some assms show ?thesis
        by (simp add: balanced_def)
    qed
  qed
qed

lemma pw_loop_balanced:
  "balanced (trace s) \<Longrightarrow> balanced (trace (snd (pw_loop eng items s)))"
proof (induction items arbitrary: s)
  case Nil
  then show ?case by simp
next
  case (Cons it its)
  from playwright_item_balanced [OF Cons.prems, of eng it] Cons.IH
  show ?case by (cases "playwright_item eng it s") (auto split: option.splits)
qed

lemma playwright_execute_balanced: "balanced (snd (playwright_execute eng items))"
  using pw_loop_balanced [of "\<lparr>results = [], trace = []\<rparr>" eng items]
  by (auto simp: playwright_execute_def balanced_def count_events_def
      split: prod.splits option.splits)

section \<open>One item of the Stagehand node\<close>

lemma sh_finally_effect:
  "sh_finally eng r = (r1, s1) \<Longrightarrow>
     results s1 = results (snd r)
     \<and> trace s1
         = trace (snd r) @ [Ev StagehandClose (outcome_of eng (trace (snd r)) StagehandClose)]
     \<and> (r1 = None \<longleftrightarrow>
          fst r = None \<and> (\<exists>v. outcome_of eng (trace (snd r)) StagehandClose = Returns v))
     \<and> ((\<exists>v. outcome_of eng (trace (snd r)) StagehandClose = Returns v) \<longrightarrow> r1 = fst r)"
  by (auto simp: sh_finally_def invoke_def Let_def split: outcome.splits)

lemma stagehand_item_session:
  assumes op: "getNodeParameterReq (params it) ''operation'' = Inr operation"
    and init: "invoke eng
                 (StagehandInit (getNodeParameter (params it) ''options.enableCaching'' (PBool True))
                    (modelName (fst cred) (fst (snd cred))) (snd (snd cred))
                    (getNodeParameter (params it) ''cdpUrl'' (PStr []))) s = (Returns v, s1)"
  shows "\<exists>body oc. trace (snd (stagehand_item eng cred it s))
                      = trace s1 @ body @ [Ev StagehandClose oc]
           \<and> (\<forall>e\<in>set body. \<not> session_call (call_of e))
           \<and> (fst (stagehand_item eng cred it s) = None \<longrightarrow>
                 (\<exists>res bin. results (snd (stagehand_item eng cred it s))
                              = results s @ [Output operation res bin]))
           \<and> (fst (stagehand_item eng cred it s) = None
                \<longleftrightarrow> fst (sh_switch eng it operation s1) = None \<and> returned (Ev StagehandClose oc))"
proof -
  let ?b = "sh_switch eng it operation s1"
  from sh_switch_body [of operation s1 eng it]
  obtain evs where b: "trace (snd ?b) = trace s1 @ evs"
      "\<forall>e\<in>set evs. \<not> session_call (call_of e)"
      "fst ?b = None \<longrightarrow> (\<exists>res bin. results (snd ?b) = results s1 @ [Output operation res bin])"
    by (auto simp: body_effect_def split: option.splits)
  obtain r s3 where f: "sh_finally eng ?b = (r, s3)"
    by (cases "sh_finally eng ?b")
  have item: "stagehand_item eng cred it s = (r, s3)"
    using op init f by (simp add: stagehand_item_def Let_def)
  have rs: "results s1 = results s"
    using init by (auto simp: invoke_def Let_def)
  from sh_finally_effect [OF f] b item rs show ?thesis
    by (cases "outcome_of eng (trace (snd ?b)) StagehandClose") auto
qed

lemma stagehand_item_balanced:
  assumes "sh_balanced (trace s)"
  shows "sh_balanced (trace (snd (stagehand_item eng cred it s)))"
proof (cases "getNodeParameterReq (params it) ''operation''")
  case (Inl e)
  then show ?thesis using assms by (simp add: stagehand_item_def)
next
  case (Inr operation)
  let ?c = "StagehandInit (getNodeParameter (params it) ''options.enableCaching'' (PBool True))
                    (modelName (fst cred) (fst (snd cred))) (snd (snd cred))
                    (getNodeParameter (params it) ''cdpUrl'' (PStr []))"
  obtain out s1 where i: "invoke eng ?c s = (out, s1)"
    by (cases "invoke eng ?c s")
  show ?thesis
  proof (cases out)
    case (Returns v)
    with stagehand_item_session [OF Inr, of eng cred s v s1] i
    obtain body oc where
      t: "trace (snd (stagehand_item eng cred it s)) = trace s1 @ body @ [Ev StagehandClose oc]"
        "\<forall>e\<in>set body. \<not> session_call (call_of e)"
      by blast
    have "trace s1 = trace s @ [Ev ?c (Returns v)]"
      using i Returns by (auto simp: invoke_def Let_def)
    with assms filter_body [OF t(2)] show ?thesis
      by (simp add: t(1) sh_balanced_def count_events_def)
  next
    case (Throws m)
    with i Inr have "stagehand_item eng cred it s = (Some (EngineError m), s1)"
      by (simp add: stagehand_item_def Let_def)
    moreover have "trace s1 = trace s @ [Ev ?c (Throws m)]"
      using i Throws by (auto simp: invoke_def Let_def)
    ultimately show ?thesis using assms
      by (simp add: sh_balanced_def count_events_def)
  qed
qed

lemma sh_loop_balanced:
  "sh_balanced (trace s) \<Longrightarrow> sh_balanced (trace (snd (sh_loop eng cred items s)))"
proof (induction items arbitrary: s)
  case Nil
  then show ?case by simp
next
  case (Cons it its)
  from stagehand_item_balanced [OF Cons.prems, of eng cred it] Cons.IH
  show ?case by (cases "stagehand_item eng cred it s") (auto split: option.splits)
qed

lemma stagehand_execute_balanced: "sh_balanced (snd (stagehand_execute eng m items))"
proof (cases "assert_model m")
  case (Inl e)
  then show ?thesis by (simp add: stagehand_execute_def sh_balanced_def count_events_def)
next
  case (Inr cred)
  with sh_loop_balanced [of "\<lparr>results = [], trace = []\<rparr>" eng cred items]
  show ?thesis
    by (auto simp: stagehand_execute_def sh_balanced_def count_events_def
        split: prod.splits option.splits)
qed

section \<open>Sessions are closed\<close>

text \<open>The definitions that evaluate a run on a concrete engine and concrete items.\<close>

lemmas run_defs =
  playwright_execute_def playwright_item_def pw_connect_def pw_switch_def pw_step_def pw_catch_def
  pw_finally_def stagehand_execute_def stagehand_item_def sh_switch_def sh_schema_def sh_foreign_def
  sh_step_def sh_finally_def assert_model_def isChatInstance_def modelName_def
  getNodeParameter_def getNodeParameterReq_def invoke_def push_def Let_def count_events_def
  ok_engine_def failing_action_engine_def chat_model_def

text \<open>
  Claim C1. The Playwright node does not meet it. On an engine whose browser has a
  context but no page and whose \<^verbatim>\<open>newPage\<close> raises, the browser is connected, the
  error leaves \<^verbatim>\<open>execute\<close> from line 384, ahead of the \<^verbatim>\<open>try\<close> of line 386 whose
  \<^verbatim>\<open>finally\<close> block holds the only \<^verbatim>\<open>browser.close()\<close>, and no close call is ever
  made: the run ends with one successful connection and no release.
\<close>

theorem connection_left_open:
  "playwright_execute no_page_engine [[(''operation'', PStr ''goto'')]]
   = (Inl (EngineError ''Target closed''),
      [Ev (ConnectOverCDP (PStr [])) (Returns ''ok''), Ev NewPage (Throws ''Target closed'')])
   \<and> count_events connected
         (snd (playwright_execute no_page_engine [[(''operation'', PStr ''goto'')]])) = 1
   \<and> count_events browser_closed
         (snd (playwright_execute no_page_engine [[(''operation'', PStr ''goto'')]])) = 0"
  by (simp add: run_defs no_page_engine_def)

text \<open>
  What the \<^verbatim>\<open>finally\<close> blocks do achieve. For every item whose session is fully
  acquired (Playwright: the connection, the context and the page are obtained;
  Stagehand: \<^verbatim>\<open>init\<close> returns), what follows the acquisition in the trace of that item
  is the operation body, which makes no session call, and then exactly one close call,
  with which the processing of the item ends; this holds whether the body completes or
  throws. Over a whole run of the Playwright node in which no context or page creation
  failed, successful connections and close calls are equal in number; over every run
  of the Stagehand node, successful initialisations and close calls are equal in
  number.
\<close>

lemma session_closed_exactly_once:
  "(getNodeParameterReq it ''operation'' = Inr operation \<and> operation \<noteq> PStr ''executablePath''
      \<and> pw_connect eng (getNodeParameter it ''cdpUrl'' (PStr [])) s = (None, s1)
    \<longrightarrow> (\<exists>body oc. trace (snd (playwright_item eng it s)) = trace s1 @ body @ [Ev BrowserClose oc]
           \<and> (\<forall>e\<in>set body. \<not> session_call (call_of e))))
   \<and> (getNodeParameterReq (params sit) ''operation'' = Inr soperation
      \<and> invoke eng
           (StagehandInit (getNodeParameter (params sit) ''options.enableCaching'' (PBool True))
              (modelName (fst cred) (fst (snd cred))) (snd (snd cred))
              (getNodeParameter (params sit) ''cdpUrl'' (PStr []))) s = (Returns v, s2)
    \<longrightarrow> (\<exists>body oc. trace (snd (stagehand_item eng cred sit s))
                      = trace s2 @ body @ [Ev StagehandClose oc]
           \<and> (\<forall>e\<in>set body. \<not> session_call (call_of e))))
   \<and> (count_events setup_failed (snd (playwright_execute eng items)) = 0
      \<longrightarrow> count_events connected (snd (playwright_execute eng items))
          = count_events browser_closed (snd (playwright_execute eng items)))
   \<and> count_events initialized (snd (stagehand_execute eng m sitems))
       = count_events stagehand_closed (snd (stagehand_execute eng m sitems))"
proof (intro conjI impI)
  assume "getNodeParameterReq it ''operation'' = Inr operation \<and> operation \<noteq> PStr ''executablePath''
      \<and> pw_connect eng (getNodeParameter it ''cdpUrl'' (PStr [])) s = (None, s1)"
  then show "\<exists>body oc. trace (snd (playwright_item eng it s)) = trace s1 @ body @ [Ev BrowserClose oc]
           \<and> (\<forall>e\<in>set body. \<not> session_call (call_of e))"
    using playwright_item_session [of it operation eng s s1] by blast
next
  assume "getNodeParameterReq (params sit) ''operation'' = Inr soperation
      \<and> invoke eng
           (StagehandInit (getNodeParameter (params sit) ''options.enableCaching'' (PBool True))
              (modelName (fst cred) (fst (snd cred))) (snd (snd cred))
              (getNodeParameter (params sit) ''cdpUrl'' (PStr []))) s = (Returns v, s2)"
  then show "\<exists>body oc. trace (snd (stagehand_item eng cred sit s))
                      = trace s2 @ body @ [Ev StagehandClose oc]
           \<and> (\<forall>e\<in>set body. \<not> session_call (call_of e))"
    using stagehand_item_session [of sit soperation eng cred s v s2] by blast
next
  assume "count_events setup_failed (snd (playwright_execute eng items)) = 0"
  with playwright_execute_balanced [of eng items]
  show "count_events connected (snd (playwright_execute eng items))
          = count_events browser_closed (snd (playwright_execute eng items))"
    by (simp add: balanced_def)
next
  show "count_events initialized (snd (stagehand_execute eng m sitems))
       = count_events stagehand_closed (snd (stagehand_execute eng m sitems))"
    using stagehand_execute_balanced [of eng m sitems] by (simp add: sh_balanced_def)
qed


text \<open>
  The same on an engine whose page actions all time out: the hypotheses hold, both
  sessions are closed after the failed action, and the two items of the Playwright run
  account for two connections and two close calls.
\<close>

lemma session_closed_exactly_once_witness:
  "(getNodeParameterReq [(''operation'', PStr ''click'')] ''operation'' = Inr (PStr ''click'')
    \<and> PStr ''click'' \<noteq> PStr ''executablePath''
    \<and> pw_connect failing_action_engine
          (getNodeParameter [(''operation'', PStr ''click'')] ''cdpUrl'' (PStr []))
          \<lparr>results = [], trace = []\<rparr>
        = (None, \<lparr>results = [], trace = [Ev (ConnectOverCDP (PStr [])) (Returns ''ok'')]\<rparr>))
   \<and> (\<exists>body oc.
         trace (snd (playwright_item failing_action_engine [(''operation'', PStr ''click'')]
                       \<lparr>results = [], trace = []\<rparr>))
           = [Ev (ConnectOverCDP (PStr [])) (Returns ''ok'')] @ body @ [Ev BrowserClose oc]
         \<and> (\<forall>e\<in>set body. \<not> session_call (call_of e)))
   \<and> (getNodeParameterReq (params \<lparr>params = [(''operation'', PStr ''observe'')], field_list = None\<rparr>)
         ''operation'' = Inr (PStr ''observe'')
      \<and> invoke failing_action_engine
            (StagehandInit (PBool True) ''openai/gpt-4o'' ''sk-test'' (PStr []))
            \<lparr>results = [], trace = []\<rparr>
          = (Returns ''ok'',
             \<lparr>results = [],
                trace = [Ev (StagehandInit (PBool True) ''openai/gpt-4o'' ''sk-test'' (PStr []))
                           (Returns ''ok'')]\<rparr>))
   \<and> (\<exists>body oc.
         trace (snd (stagehand_item failing_action_engine
                       ([''langchain'', ''chat_models'', ''openai''], ''gpt-4o'', ''sk-test'')
                       \<lparr>params = [(''operation'', PStr ''observe'')], field_list = None\<rparr>
                       \<lparr>results = [], trace = []\<rparr>))
           = [Ev (StagehandInit (PBool True) ''openai/gpt-4o'' ''sk-test'' (PStr [])) (Returns ''ok'')]
               @ body @ [Ev StagehandClose oc]
         \<and> (\<forall>e\<in>set body. \<not> session_call (call_of e)))
   \<and> count_events setup_failed
         (snd (playwright_execute failing_action_engine
                 [[(''operation'', PStr ''click'')], [(''operation'', PStr ''goto'')]])) = 0
   \<and> count_events connected
         (snd (playwright_execute failing_action_engine
                 [[(''operation'', PStr ''click'')], [(''operation'', PStr ''goto'')]]))
       = count_events browser_closed
           (snd (playwright_execute failing_action_engine
                   [[(''operation'', PStr ''click'')], [(''operation'', PStr ''goto'')]]))
   \<and> count_events browser_closed
         (snd (playwright_execute failing_action_engine
                 [[(''operation'', PStr ''click'')], [(''operation'', PStr ''goto'')]])) = 2"
proof -
  let ?it = "[(''operation'', PStr ''click'')]"
  let ?s0 = "\<lparr>results = [], trace = []\<rparr>"
  let ?s1 = "\<lparr>results = [], trace = [Ev (ConnectOverCDP (PStr [])) (Returns ''ok'')]\<rparr>"
  let ?sit = "\<lparr>params = [(''operation'', PStr ''observe'')], field_list = None\<rparr>"
  let ?cred = "([''langchain'', ''chat_models'', ''openai''], ''gpt-4o'', ''sk-test'')"
  let ?init = "StagehandInit (PBool True) ''openai/gpt-4o'' ''sk-test'' (PStr [])"
  let ?s2 = "\<lparr>results = [], trace = [Ev ?init (Returns ''ok'')]\<rparr>"
  let ?items = "[[(''operation'', PStr ''click'')], [(''operation'', PStr ''goto'')]]"
  have h: "getNodeParameterReq ?it ''operation'' = Inr (PStr ''click'')
    \<and> PStr ''click'' \<noteq> PStr ''executablePath''
    \<and> pw_connect failing_action_engine (getNodeParameter ?it ''cdpUrl'' (PStr [])) ?s0
        = (None, ?s1)"
    by (simp add: run_defs)
  have args: "StagehandInit (getNodeParameter (params ?sit) ''options.enableCaching'' (PBool True))
              (modelName (fst ?cred) (fst (snd ?cred))) (snd (snd ?cred))
              (getNodeParameter (params ?sit) ''cdpUrl'' (PStr [])) = ?init"
    by (simp add: run_defs)
  have g: "getNodeParameterReq (params ?sit) ''operation'' = Inr (PStr ''observe'')
      \<and> invoke failing_action_engine ?init ?s0 = (Returns ''ok'', ?s2)"
    by (simp add: run_defs)
  have c: "count_events setup_failed (snd (playwright_execute failing_action_engine ?items)) = 0"
    by (simp add: run_defs)
  have n: "count_events browser_closed (snd (playwright_execute failing_action_engine ?items)) = 2"
    by (simp add: run_defs)
  note inst = session_closed_exactly_once
    [where it = ?it and operation = "PStr ''click''" and eng = failing_action_engine
       and s = ?s0 and ?s1.0 = ?s1 and items = ?items and sit = ?sit
       and soperation = "PStr ''observe''" and cred = ?cred and v = "''ok''" and ?s2.0 = ?s2,
     unfolded args]
  from inst h have "\<exists>body oc.
         trace (snd (playwright_item failing_action_engine ?it ?s0))
           = trace ?s1 @ body @ [Ev BrowserClose oc]
         \<and> (\<forall>e\<in>set body. \<not> session_call (call_of e))"
    by blast
  moreover from inst g have "\<exists>body oc.
         trace (snd (stagehand_item failing_action_engine ?cred ?sit ?s0))
           = trace ?s2 @ body @ [Ev StagehandClose oc]
         \<and> (\<forall>e\<in>set body. \<not> session_call (call_of e))"
    by blast
  moreover from inst c have "count_events connected
         (snd (playwright_execute failing_action_engine ?items))
       = count_events browser_closed (snd (playwright_execute failing_action_engine ?items))"
    by blast
  ultimately show ?thesis using h g c n by simp
qed

section \<open>The loops\<close>

lemma playwright_item_push:
  assumes "playwright_item eng it s = (None, s')"
  shows "\<exists>x. results s' = results s @ [x]
           \<and> (\<forall>op res bin. x = Output op res bin \<longrightarrow> map_of it ''operation'' = Some op)"
proof (cases "getNodeParameterReq it ''operation''")
  case (Inl e)
  with assms show ?thesis by (simp add: playwright_item_def)
next
  case (Inr operation)
  then have m: "map_of it ''operation'' = Some operation"
    by (simp add: getNodeParameterReq_Inr)
  show ?thesis
  proof (cases "operation = PStr ''executablePath''")
    case True
    with assms Inr m show ?thesis
      by (auto simp: playwright_item_def invoke_def Let_def split: outcome.splits)
  next
    case False
    obtain r s1 where c: "pw_connect eng (getNodeParameter it ''cdpUrl'' (PStr [])) s = (r, s1)"
      by (cases "pw_connect eng (getNodeParameter it ''cdpUrl'' (PStr [])) s")
    with assms Inr False have "r = None"
      by (cases r) (simp_all add: playwright_item_def Let_def)
    with playwright_item_session [OF Inr False] c assms m show ?thesis
      by fastforce
  qed
qed

lemma pw_loop_results:
  "pw_loop eng items s = (None, s') \<Longrightarrow>
     \<exists>rs. results s' = results s @ rs \<and> length rs = length items
       \<and> (\<forall>i<length items. \<forall>op res bin.
             rs ! i = Output op res bin \<longrightarrow> map_of (items ! i) ''operation'' = Some op)"
proof (induction items arbitrary: s)
  case Nil
  then show ?case by simp
next
  case (Cons it its)
  obtain r s1 where i: "playwright_item eng it s = (r, s1)"
    by (cases "playwright_item eng it s")
  with Cons.prems have r: "r = None" and l: "pw_loop eng its s1 = (None, s')"
    by (cases r; simp)+
  from playwright_item_push [OF i [unfolded r]]
  obtain x where x: "results s1 = results s @ [x]"
      "\<forall>op res bin. x = Output op res bin \<longrightarrow> map_of it ''operation'' = Some op"
    by blast
  from Cons.IH [OF l] obtain rs where rs: "results s' = results s1 @ rs" "length rs = length its"
      "\<forall>i<length its. \<forall>op res bin.
             rs ! i = Output op res bin \<longrightarrow> map_of (its ! i) ''operation'' = Some op"
    by blast
  have "\<forall>i<length (it # its). \<forall>op res bin.
             (x # rs) ! i = Output op res bin \<longrightarrow> map_of ((it # its) ! i) ''operation'' = Some op"
    using x(2) rs(3) by (auto simp: nth_Cons split: nat.splits)
  with x(1) rs(1,2) show ?case
    by (intro exI [of _ "x # rs"]) simp
qed

lemma pw_loop_append:
  "pw_loop eng (xs @ ys) s =
     (case pw_loop eng xs s of (None, s1) \<Rightarrow> pw_loop eng ys s1 | (Some e, s1) \<Rightarrow> (Some e, s1))"
  by (induction xs arbitrary: s) (auto split: prod.splits option.splits)

lemma pw_loop_prefix:
  assumes "pw_loop eng items s = (None, s')" "k \<le> length items"
  shows "\<exists>sk. pw_loop eng (take k items) s = (None, sk)
           \<and> results sk = take (length (results s) + k) (results s')"
proof -
  obtain r sk where p: "pw_loop eng (take k items) s = (r, sk)"
    by (cases "pw_loop eng (take k items) s")
  from pw_loop_append [of eng "take k items" "drop k items" s] assms(1) p
  have r: "r = None" and d: "pw_loop eng (drop k items) sk = (None, s')"
    by (cases r; simp)+
  from pw_loop_results [OF p [unfolded r]] assms(2)
  obtain rs where rs: "results sk = results s @ rs" "length rs = k"
    by auto
  from pw_loop_results [OF d] obtain rs' where "results s' = results sk @ rs'"
    by blast
  with rs p r show ?thesis by simp
qed

lemma stagehand_item_push:
  assumes "stagehand_item eng cred it s = (None, s')"
  shows "\<exists>x. results s' = results s @ [x]
           \<and> (\<forall>op res bin. x = Output op res bin \<longrightarrow> map_of (params it) ''operation'' = Some op)"
proof (cases "getNodeParameterReq (params it) ''operation''")
  case (Inl e)
  with assms show ?thesis by (simp add: stagehand_item_def)
next
  case (Inr operation)
  then have m: "map_of (params it) ''operation'' = Some operation"
    by (simp add: getNodeParameterReq_Inr)
  let ?c = "StagehandInit (getNodeParameter (params it) ''options.enableCaching'' (PBool True))
                    (modelName (fst cred) (fst (snd cred))) (snd (snd cred))
                    (getNodeParameter (params it) ''cdpUrl'' (PStr []))"
  obtain out s1 where i: "invoke eng ?c s = (out, s1)"
    by (cases "invoke eng ?c s")
  with assms Inr obtain v where "out = Returns v"
    by (cases out) (simp_all add: stagehand_item_def Let_def)
  with stagehand_item_session [OF Inr, of eng cred s v s1] i assms m show ?thesis
    by fastforce
qed

lemma sh_loop_results:
  "sh_loop eng cred items s = (None, s') \<Longrightarrow>
     \<exists>rs. results s' = results s @ rs \<and> length rs = length items
       \<and> (\<forall>i<length items. \<forall>op res bin.
             rs ! i = Output op res bin \<longrightarrow> map_of (params (items ! i)) ''operation'' = Some op)"
proof (induction items arbitrary: s)
  case Nil
  then show ?case by simp
next
  case (Cons it its)
  obtain r s1 where i: "stagehand_item eng cred it s = (r, s1)"
    by (cases "stagehand_item eng cred it s")
  with Cons.prems have r: "r = None" and l: "sh_loop eng cred its s1 = (None, s')"
    by (cases r; simp)+
  from stagehand_item_push [OF i [unfolded r]]
  obtain x where x: "results s1 = results s @ [x]"
      "\<forall>op res bin. x = Output op res bin \<longrightarrow> map_of (params it) ''operation'' = Some op"
    by blast
  from Cons.IH [OF l] obtain rs where rs: "results s' = results s1 @ rs" "length rs = length its"
      "\<forall>i<length its. \<forall>op res bin.
             rs ! i = Output op res bin \<longrightarrow> map_of (params (its ! i)) ''operation'' = Some op"
    by blast
  have "\<forall>i<length (it # its). \<forall>op res bin.
             (x # rs) ! i = Output op res bin
             \<longrightarrow> map_of (params ((it # its) ! i)) ''operation'' = Some op"
    using x(2) rs(3) by (auto simp: nth_Cons split: nat.splits)
  with x(1) rs(1,2) show ?case
    by (intro exI [of _ "x # rs"]) simp
qed

lemma sh_loop_append:
  "sh_loop eng cred (xs @ ys) s =
     (case sh_loop eng cred xs s of
        (None, s1) \<Rightarrow> sh_loop eng cred ys s1
      | (Some e, s1) \<Rightarrow> (Some e, s1))"
  by (induction xs arbitrary: s) (auto split: prod.splits option.splits)

lemma sh_loop_prefix:
  assumes "sh_loop eng cred items s = (None, s')" "k \<le> length items"
  shows "\<exists>sk. sh_loop eng cred (take k items) s = (None, sk)
           \<and> results sk = take (length (results s) + k) (results s')"
proof -
  obtain r sk where p: "sh_loop eng cred (take k items) s = (r, sk)"
    by (cases "sh_loop eng cred (take k items) s")
  from sh_loop_append [of eng cred "take k items" "drop k items" s] assms(1) p
  have r: "r = None" and d: "sh_loop eng cred (drop k items) sk = (None, s')"
    by (cases r; simp)+
  from sh_loop_results [OF p [unfolded r]] assms(2)
  obtain rs where rs: "results sk = results s @ rs" "length rs = k"
    by auto
  from sh_loop_results [OF d] obtain rs' where "results s' = results sk @ rs'"
    by blast
  with rs p r show ?thesis by simp
qed

text \<open>
  Claim C3, as stated, on an engine that refuses the connection: \<^verbatim>\<open>execute\<close> is given
  one item and raises, so it returns no result at all for it.
\<close>

theorem execute_raises_on_refused_connection:
  "playwright_execute refusing_engine [[(''operation'', PStr ''goto'')]]
   = (Inl (EngineError ''connect ECONNREFUSED''),
      [Ev (ConnectOverCDP (PStr [])) (Throws ''connect ECONNREFUSED'')])"
  by (simp add: run_defs refusing_engine_def)

text \<open>
  Claim C3, amended. Whenever \<^verbatim>\<open>execute\<close> returns rather than raises, it returns one
  list with exactly one record per input item, in input order: the first \<open>k\<close> records
  are what the node returns on the first \<open>k\<close> items alone, and every record that
  reports success carries the operation of the item at the same index. This holds for
  the Playwright node and for the Stagehand node.
\<close>

theorem one_result_per_item:
  "(playwright_execute eng items = (Inr out, tr) \<longrightarrow>
      (\<exists>rs. out = [rs] \<and> length rs = length items
         \<and> (\<forall>k\<le>length items. fst (playwright_execute eng (take k items)) = Inr [take k rs])
         \<and> (\<forall>i<length items. \<forall>op res bin.
               rs ! i = Output op res bin \<longrightarrow> map_of (items ! i) ''operation'' = Some op)))
   \<and> (stagehand_execute eng m sitems = (Inr sout, str) \<longrightarrow>
      (\<exists>rs. sout = [rs] \<and> length rs = length sitems
         \<and> (\<forall>k\<le>length sitems. fst (stagehand_execute eng m (take k sitems)) = Inr [take k rs])
         \<and> (\<forall>i<length sitems. \<forall>op res bin.
               rs ! i = Output op res bin
               \<longrightarrow> map_of (params (sitems ! i)) ''operation'' = Some op)))"
proof (intro conjI impI)
  let ?s0 = "\<lparr>results = [], trace = []\<rparr>"
  assume ret: "playwright_execute eng items = (Inr out, tr)"
  obtain r s' where l: "pw_loop eng items ?s0 = (r, s')"
    by (cases "pw_loop eng items ?s0")
  with ret have r: "r = None" and out: "out = [results s']"
    by (cases r; simp add: playwright_execute_def)+
  from pw_loop_results [OF l [unfolded r]]
  have len: "length (results s') = length items"
    and tag: "\<forall>i<length items. \<forall>op res bin.
               results s' ! i = Output op res bin \<longrightarrow> map_of (items ! i) ''operation'' = Some op"
    by auto
  have "fst (playwright_execute eng (take k items)) = Inr [take k (results s')]"
    if "k \<le> length items" for k
    using pw_loop_prefix [OF l [unfolded r] that]
    by (auto simp: playwright_execute_def)
  with out len tag
  show "\<exists>rs. out = [rs] \<and> length rs = length items
         \<and> (\<forall>k\<le>length items. fst (playwright_execute eng (take k items)) = Inr [take k rs])
         \<and> (\<forall>i<length items. \<forall>op res bin.
               rs ! i = Output op res bin \<longrightarrow> map_of (items ! i) ''operation'' = Some op)"
    by blast
next
  let ?s0 = "\<lparr>results = [], trace = []\<rparr>"
  assume ret: "stagehand_execute eng m sitems = (Inr sout, str)"
  then obtain cred where a: "assert_model m = Inr cred"
    by (cases "assert_model m") (simp_all add: stagehand_execute_def)
  obtain r s' where l: "sh_loop eng cred sitems ?s0 = (r, s')"
    by (cases "sh_loop eng cred sitems ?s0")
  with ret a have r: "r = None" and out: "sout = [results s']"
    by (cases r; simp add: stagehand_execute_def)+
  from sh_loop_results [OF l [unfolded r]]
  have len: "length (results s') = length sitems"
    and tag: "\<forall>i<length sitems. \<forall>op res bin.
               results s' ! i = Output op res bin
               \<longrightarrow> map_of (params (sitems ! i)) ''operation'' = Some op"
    by auto
  have "fst (stagehand_execute eng m (take k sitems)) = Inr [take k (results s')]"
    if "k \<le> length sitems" for k
    using sh_loop_prefix [OF l [unfolded r] that] a
    by (auto simp: stagehand_execute_def)
  with out len tag
  show "\<exists>rs. sout = [rs] \<and> length rs = length sitems
         \<and> (\<forall>k\<le>length sitems. fst (stagehand_execute eng m (take k sitems)) = Inr [take k rs])
         \<and> (\<forall>i<length sitems. \<forall>op res bin.
               rs ! i = Output op res bin
               \<longrightarrow> map_of (params (sitems ! i)) ''operation'' = Some op)"
    by blast
qed

text \<open>
  The amended claim on runs that return: three Playwright items, the second of them
  failing inside its body, and two Stagehand items.
\<close>

theorem one_result_per_item_witness:
  "playwright_execute ok_engine
     [[(''operation'', PStr ''goto'')], [(''operation'', PStr ''teleport'')],
      [(''operation'', PStr ''executablePath'')]]
   = (Inr [[Output (PStr ''goto'') None None,
            Failed (ApplicationError ''Unsupported operation: teleport''),
            Output (PStr ''executablePath'') (Some ''ok'') None]],
      [Ev (ConnectOverCDP (PStr [])) (Returns ''ok''),
       Ev (Goto (PStr []) (PNum 30000)) (Returns ''ok''),
       Ev BrowserClose (Returns ''ok''),
       Ev (ConnectOverCDP (PStr [])) (Returns ''ok''),
       Ev BrowserClose (Returns ''ok''),
       Ev ExecutablePath (Returns ''ok'')])
   \<and> fst (playwright_execute ok_engine
            (take 2 [[(''operation'', PStr ''goto'')], [(''operation'', PStr ''teleport'')],
                     [(''operation'', PStr ''executablePath'')]]))
       = Inr [take 2 [Output (PStr ''goto'') None None,
                      Failed (ApplicationError ''Unsupported operation: teleport''),
                      Output (PStr ''executablePath'') (Some ''ok'') None]]
   \<and> stagehand_execute ok_engine (Some chat_model)
       [\<lparr>params = [(''operation'', PStr ''act'')], field_list = None\<rparr>,
        \<lparr>params = [(''operation'', PStr ''observe'')], field_list = None\<rparr>]
     = (Inr [[Output (PStr ''act'') (Some ''ok'') None, Output (PStr ''observe'') (Some ''ok'') None]],
        [Ev (StagehandInit (PBool True) ''openai/gpt-4o'' ''sk-test'' (PStr [])) (Returns ''ok''),
         Ev (Act (PStr [])) (Returns ''ok''),
         Ev StagehandClose (Returns ''ok''),
         Ev (StagehandInit (PBool True) ''openai/gpt-4o'' ''sk-test'' (PStr [])) (Returns ''ok''),
         Ev (Observe (PStr [])) (Returns ''ok''),
         Ev StagehandClose (Returns ''ok'')])
   \<and> fst (stagehand_execute ok_engine (Some chat_model)
            (take 1 [\<lparr>params = [(''operation'', PStr ''act'')], field_list = None\<rparr>,
                     \<lparr>params = [(''operation'', PStr ''observe'')], field_list = None\<rparr>]))
       = Inr [take 1 [Output (PStr ''act'') (Some ''ok'') None,
                      Output (PStr ''observe'') (Some ''ok'') None]]"
proof -
  let ?items = "[[(''operation'', PStr ''goto'')], [(''operation'', PStr ''teleport'')],
      [(''operation'', PStr ''executablePath'')]]"
  let ?rs = "[Output (PStr ''goto'') None None,
            Failed (ApplicationError ''Unsupported operation: teleport''),
            Output (PStr ''executablePath'') (Some ''ok'') None]"
  let ?tr = "[Ev (ConnectOverCDP (PStr [])) (Returns ''ok''),
       Ev (Goto (PStr []) (PNum 30000)) (Returns ''ok''),
       Ev BrowserClose (Returns ''ok''),
       Ev (ConnectOverCDP (PStr [])) (Returns ''ok''),
       Ev BrowserClose (Returns ''ok''),
       Ev ExecutablePath (Returns ''ok'')]"
  let ?sitems = "[\<lparr>params = [(''operation'', PStr ''act'')], field_list = None\<rparr>,
        \<lparr>params = [(''operation'', PStr ''observe'')], field_list = None\<rparr>]"
  let ?srs = "[Output (PStr ''act'') (Some ''ok'') None, Output (PStr ''observe'') (Some ''ok'') None]"
  let ?str = "[Ev (StagehandInit (PBool True) ''openai/gpt-4o'' ''sk-test'' (PStr [])) (Returns ''ok''),
         Ev (Act (PStr [])) (Returns ''ok''),
         Ev StagehandClose (Returns ''ok''),
         Ev (StagehandInit (PBool True) ''openai/gpt-4o'' ''sk-test'' (PStr [])) (Returns ''ok''),
         Ev (Observe (PStr [])) (Returns ''ok''),
         Ev StagehandClose (Returns ''ok'')]"
  have h: "playwright_execute ok_engine ?items = (Inr [?rs], ?tr)"
    by (simp add: run_defs)
  have g: "stagehand_execute ok_engine (Some chat_model) ?sitems = (Inr [?srs], ?str)"
    by (simp add: run_defs)
  note inst = one_result_per_item
    [where eng = ok_engine and items = ?items and out = "[?rs]" and tr = ?tr
       and m = "Some chat_model" and sitems = ?sitems and sout = "[?srs]" and str = ?str]
  from inst h have
    "\<forall>k\<le>length ?items. fst (playwright_execute ok_engine (take k ?items)) = Inr [take k ?rs]"
    by blast
  then have a: "fst (playwright_execute ok_engine (take 2 ?items)) = Inr [take 2 ?rs]"
    by (rule allE [of _ 2]) simp
  from inst g have
    "\<forall>k\<le>length ?sitems.
        fst (stagehand_execute ok_engine (Some chat_model) (take k ?sitems)) = Inr [take k ?srs]"
    by blast
  then have b: "fst (stagehand_execute ok_engine (Some chat_model) (take 1 ?sitems))
      = Inr [take 1 ?srs]"
    by (rule allE [of _ 1]) simp
  from h a g b show ?thesis by blast
qed

section \<open>Failures inside an operation body\<close>

lemma body_throw_results:
  "body_effect operation s (Some e, s2) \<Longrightarrow> results s2 = results s"
  by (auto simp: body_effect_def)






text \<open>
  The Stagehand node has no \<^verbatim>\<open>catch\<close>: an error thrown by the operation body leaves
  the item after the close call, nothing is recorded and the loop stops.
\<close>

lemma stagehand_item_propagates:
  assumes op: "getNodeParameterReq (params it) ''operation'' = Inr operation"
    and init: "invoke eng
                 (StagehandInit (getNodeParameter (params it) ''options.enableCaching'' (PBool True))
                    (modelName (fst cred) (fst (snd cred))) (snd (snd cred))
                    (getNodeParameter (params it) ''cdpUrl'' (PStr []))) s = (Returns v, s1)"
    and body: "sh_switch eng it operation s1 = (Some e, s2)"
  shows "stagehand_item eng cred it s = sh_finally eng (Some e, s2)"
    and "fst (stagehand_item eng cred it s) \<noteq> None"
    and "results (snd (stagehand_item eng cred it s)) = results s"
    and "sh_loop eng cred (it # its) s = stagehand_item eng cred it s"
proof -
  show i: "stagehand_item eng cred it s = sh_finally eng (Some e, s2)"
    using op init body by (simp add: stagehand_item_def Let_def)
  then show f: "fst (stagehand_item eng cred it s) \<noteq> None"
    by (simp add: sh_finally_def invoke_def Let_def split: outcome.splits)
  have "results s1 = results s"
    using init by (auto simp: invoke_def Let_def)
  with sh_switch_body [of operation s1 eng it] body have "results s2 = results s"
    by (simp add: body_throw_results)
  with i show "results (snd (stagehand_item eng cred it s)) = results s"
    by (simp add: sh_finally_def invoke_def Let_def split: outcome.splits)
  from f show "sh_loop eng cred (it # its) s = stagehand_item eng cred it s"
    by (cases "stagehand_item eng cred it s") (auto split: option.splits)
qed




section \<open>Unsupported operations\<close>

lemma playwright_item_first_call:
  assumes op: "getNodeParameterReq it ''operation'' = Inr operation"
      "operation \<noteq> PStr ''executablePath''"
  shows "\<exists>rest. trace (snd (playwright_item eng it s))
             = trace s @ Ev (ConnectOverCDP (getNodeParameter it ''cdpUrl'' (PStr [])))
                           (outcome_of eng (trace s)
                              (ConnectOverCDP (getNodeParameter it ''cdpUrl'' (PStr [])))) # rest
           \<and> (\<forall>e\<in>set rest. \<not> acquire_call (call_of e))"
proof -
  let ?u = "getNodeParameter it ''cdpUrl'' (PStr [])"
  obtain r s1 where c: "pw_connect eng ?u s = (r, s1)"
    by (cases "pw_connect eng ?u s")
  from pw_connect_effect(2) [OF c] obtain evs where
    evs: "trace s1 = trace s @ Ev (ConnectOverCDP ?u) (outcome_of eng (trace s) (ConnectOverCDP ?u)) # evs"
      "\<forall>e\<in>set evs. call_of e = NewContext \<or> call_of e = NewPage"
    by blast
  from evs(2) have na: "\<forall>e\<in>set evs. \<not> acquire_call (call_of e)"
    by auto
  show ?thesis
  proof (cases r)
    case (Some e)
    with c op have "playwright_item eng it s = (Some e, s1)"
      by (simp add: playwright_item_def Let_def)
    with evs(1) na show ?thesis by simp
  next
    case None
    with playwright_item_session [OF op] c obtain body oc where
      t: "trace (snd (playwright_item eng it s)) = trace s1 @ body @ [Ev BrowserClose oc]"
        "\<forall>e\<in>set body. \<not> session_call (call_of e)"
      by blast
    from t(2) have "\<forall>e\<in>set body. \<not> acquire_call (call_of e)"
      by (simp add: body_event_kinds)
    with na have "\<forall>e\<in>set (evs @ body @ [Ev BrowserClose oc]). \<not> acquire_call (call_of e)"
      by auto
    with t(1) evs(1) show ?thesis
      by (intro exI [of _ "evs @ body @ [Ev BrowserClose oc]"]) simp
  qed
qed

lemma stagehand_item_first_call:
  assumes op: "getNodeParameterReq (params it) ''operation'' = Inr operation"
  shows "\<exists>rest. trace (snd (stagehand_item eng cred it s))
             = trace s @ Ev (StagehandInit (getNodeParameter (params it) ''options.enableCaching'' (PBool True))
                    (modelName (fst cred) (fst (snd cred))) (snd (snd cred))
                    (getNodeParameter (params it) ''cdpUrl'' (PStr [])))
                 (outcome_of eng (trace s)
                    (StagehandInit (getNodeParameter (params it) ''options.enableCaching'' (PBool True))
                    (modelName (fst cred) (fst (snd cred))) (snd (snd cred))
                    (getNodeParameter (params it) ''cdpUrl'' (PStr [])))) # rest
           \<and> (\<forall>e\<in>set rest. \<not> acquire_call (call_of e))"
proof -
  let ?c = "StagehandInit (getNodeParameter (params it) ''options.enableCaching'' (PBool True))
                    (modelName (fst cred) (fst (snd cred))) (snd (snd cred))
                    (getNodeParameter (params it) ''cdpUrl'' (PStr []))"
  obtain out s1 where i: "invoke eng ?c s = (out, s1)"
    by (cases "invoke eng ?c s")
  then have o: "out = outcome_of eng (trace s) ?c" and t1: "trace s1 = trace s @ [Ev ?c out]"
    by (auto simp: invoke_def Let_def)
  show ?thesis
  proof (cases out)
    case (Throws m)
    with i op have "stagehand_item eng cred it s = (Some (EngineError m), s1)"
      by (simp add: stagehand_item_def Let_def)
    with t1 o show ?thesis by simp
  next
    case (Returns v)
    with stagehand_item_session [OF op, of eng cred s v s1] i obtain body oc where
      t: "trace (snd (stagehand_item eng cred it s)) = trace s1 @ body @ [Ev StagehandClose oc]"
        "\<forall>e\<in>set body. \<not> session_call (call_of e)"
      by blast
    from t(2) have "\<forall>e\<in>set (body @ [Ev StagehandClose oc]). \<not> acquire_call (call_of e)"
      by (auto simp: body_event_kinds)
    with t(1) t1 o show ?thesis
      by (intro exI [of _ "body @ [Ev StagehandClose oc]"]) simp
  qed
qed

lemma unsupported_neq:
  "\<not> supported ops operation \<Longrightarrow> name \<in> set ops \<Longrightarrow> operation \<noteq> PStr name"
  by (auto simp: supported_def)

lemma pw_switch_unsupported:
  assumes "\<not> supported playwright_operations operation"
  shows "pw_switch eng it operation timeout s
         = (Some (ApplicationError (''Unsupported operation: '' @ render operation)), s)"
proof -
  note n = unsupported_neq [OF assms]
  have "operation \<noteq> PStr ''goto''" "operation \<noteq> PStr ''screenshot''" "operation \<noteq> PStr ''click''"
    "operation \<noteq> PStr ''fill''" "operation \<noteq> PStr ''type''" "operation \<noteq> PStr ''selectOption''"
    "operation \<noteq> PStr ''press''" "operation \<noteq> PStr ''waitForTimeout''"
    "operation \<noteq> PStr ''waitForSelector''" "operation \<noteq> PStr ''waitForLoadState''"
    "operation \<noteq> PStr ''evaluate''"
    by (rule n, simp add: playwright_operations_def)+
  then show ?thesis
    by (simp add: pw_switch_def)
qed

lemma sh_switch_unsupported:
  assumes "\<not> supported stagehand_operations operation"
  shows "sh_switch eng it operation s
         = (Some (ApplicationError (''Unsupported operation: '' @ render operation)), s)"
proof -
  note n = unsupported_neq [OF assms]
  have "operation \<noteq> PStr ''act''" "operation \<noteq> PStr ''extract''" "operation \<noteq> PStr ''observe''"
    by (rule n, simp add: stagehand_operations_def)+
  then show ?thesis
    by (simp add: sh_switch_def)
qed

text \<open>
  Claim C4, as stated, at the operation \<open>teleport\<close> on an engine that accepts
  everything: the Playwright node connects to the browser before it finds the
  operation unsupported, so one session-acquire call is made for the item.
\<close>

theorem unsupported_operation_connects_first:
  "playwright_execute ok_engine [[(''operation'', PStr ''teleport'')]]
   = (Inr [[Failed (ApplicationError ''Unsupported operation: teleport'')]],
      [Ev (ConnectOverCDP (PStr [])) (Returns ''ok''), Ev BrowserClose (Returns ''ok'')])
   \<and> length (filter (\<lambda>e. acquire_call (call_of e))
         (snd (playwright_execute ok_engine [[(''operation'', PStr ''teleport'')]]))) = 1"
  by (simp add: run_defs)

text \<open>
  Claim C4, amended. For every item whose operation is outside the set the node has a
  case for, the \<^verbatim>\<open>switch\<close> throws the error \<open>Unsupported operation: <id>\<close> without
  making any call; the check sits inside the session, so the item's first call is the
  session-acquire call (\<^verbatim>\<open>connectOverCDP\<close>, respectively \<^verbatim>\<open>stagehand.init\<close>) and no
  further acquire call follows for it. Once the session is acquired, the Playwright
  node records the error as the item's failure record and closes the session; the
  Stagehand node closes the session and lets the error leave \<^verbatim>\<open>execute\<close>.
\<close>

theorem unsupported_operation_after_acquire:
  "(getNodeParameterReq it ''operation'' = Inr operation
      \<and> \<not> supported playwright_operations operation
    \<longrightarrow> pw_switch eng it operation timeout s'
          = (Some (ApplicationError (''Unsupported operation: '' @ render operation)), s')
        \<and> (\<exists>rest. trace (snd (playwright_item eng it s))
               = trace s @ Ev (ConnectOverCDP (getNodeParameter it ''cdpUrl'' (PStr [])))
                             (outcome_of eng (trace s)
                                (ConnectOverCDP (getNodeParameter it ''cdpUrl'' (PStr [])))) # rest
             \<and> (\<forall>e\<in>set rest. \<not> acquire_call (call_of e)))
        \<and> (pw_connect eng (getNodeParameter it ''cdpUrl'' (PStr [])) s = (None, s1)
             \<longrightarrow> playwright_item eng it s
                 = pw_finally eng
                     (push (Failed (ApplicationError (''Unsupported operation: '' @ render operation)))
                        s1)))
   \<and> (getNodeParameterReq (params sit) ''operation'' = Inr soperation
      \<and> \<not> supported stagehand_operations soperation
    \<longrightarrow> sh_switch eng sit soperation s'
          = (Some (ApplicationError (''Unsupported operation: '' @ render soperation)), s')
        \<and> (\<exists>rest. trace (snd (stagehand_item eng cred sit s))
               = trace s @ Ev (StagehandInit
                                (getNodeParameter (params sit) ''options.enableCaching'' (PBool True))
                                (modelName (fst cred) (fst (snd cred))) (snd (snd cred))
                                (getNodeParameter (params sit) ''cdpUrl'' (PStr [])))
                             (outcome_of eng (trace s)
                                (StagehandInit
                                   (getNodeParameter (params sit) ''options.enableCaching'' (PBool True))
                                   (modelName (fst cred) (fst (snd cred))) (snd (snd cred))
                                   (getNodeParameter (params sit) ''cdpUrl'' (PStr [])))) # rest
             \<and> (\<forall>e\<in>set rest. \<not> acquire_call (call_of e)))
        \<and> (invoke eng
               (StagehandInit (getNodeParameter (params sit) ''options.enableCaching'' (PBool True))
                  (modelName (fst cred) (fst (snd cred))) (snd (snd cred))
                  (getNodeParameter (params sit) ''cdpUrl'' (PStr []))) s = (Returns v, s2)
             \<longrightarrow> stagehand_item eng cred sit s
                 = sh_finally eng
                     (Some (ApplicationError (''Unsupported operation: '' @ render soperation)), s2)))"
proof (intro conjI impI)
  assume h: "getNodeParameterReq it ''operation'' = Inr operation
      \<and> \<not> supported playwright_operations operation"
  then have ne: "operation \<noteq> PStr ''executablePath''"
    by (auto simp: supported_def playwright_operations_def)
  from h show sw: "pw_switch eng it operation timeout s'
          = (Some (ApplicationError (''Unsupported operation: '' @ render operation)), s')"
    for timeout s'
    by (simp add: pw_switch_unsupported)
  from h ne show "\<exists>rest. trace (snd (playwright_item eng it s))
               = trace s @ Ev (ConnectOverCDP (getNodeParameter it ''cdpUrl'' (PStr [])))
                             (outcome_of eng (trace s)
                                (ConnectOverCDP (getNodeParameter it ''cdpUrl'' (PStr [])))) # rest
             \<and> (\<forall>e\<in>set rest. \<not> acquire_call (call_of e))"
    using playwright_item_first_call [of it operation eng s] by blast
  assume "pw_connect eng (getNodeParameter it ''cdpUrl'' (PStr [])) s = (None, s1)"
  with h ne sw show "playwright_item eng it s
                 = pw_finally eng
                     (push (Failed (ApplicationError (''Unsupported operation: '' @ render operation)))
                        s1)"
    by (simp add: playwright_item_def Let_def pw_catch_def)
next
  assume h: "getNodeParameterReq (params sit) ''operation'' = Inr soperation
      \<and> \<not> supported stagehand_operations soperation"
  from h show sw: "sh_switch eng sit soperation s'
          = (Some (ApplicationError (''Unsupported operation: '' @ render soperation)), s')"
    for s'
    by (simp add: sh_switch_unsupported)
  from h show "\<exists>rest. trace (snd (stagehand_item eng cred sit s))
               = trace s @ Ev (StagehandInit
                                (getNodeParameter (params sit) ''options.enableCaching'' (PBool True))
                                (modelName (fst cred) (fst (snd cred))) (snd (snd cred))
                                (getNodeParameter (params sit) ''cdpUrl'' (PStr [])))
                             (outcome_of eng (trace s)
                                (StagehandInit
                                   (getNodeParameter (params sit) ''options.enableCaching'' (PBool True))
                                   (modelName (fst cred) (fst (snd cred))) (snd (snd cred))
                                   (getNodeParameter (params sit) ''cdpUrl'' (PStr [])))) # rest
             \<and> (\<forall>e\<in>set rest. \<not> acquire_call (call_of e))"
    using stagehand_item_first_call [of sit soperation eng cred s] by blast
  assume "invoke eng
               (StagehandInit (getNodeParameter (params sit) ''options.enableCaching'' (PBool True))
                  (modelName (fst cred) (fst (snd cred))) (snd (snd cred))
                  (getNodeParameter (params sit) ''cdpUrl'' (PStr []))) s = (Returns v, s2)"
  with h sw show "stagehand_item eng cred sit s
                 = sh_finally eng
                     (Some (ApplicationError (''Unsupported operation: '' @ render soperation)), s2)"
    by (simp add: stagehand_item_def Let_def)
qed

text \<open>The amended claim at the operation \<open>teleport\<close>, for both nodes.\<close>

theorem unsupported_operation_after_acquire_witness:
  "(getNodeParameterReq [(''operation'', PStr ''teleport'')] ''operation'' = Inr (PStr ''teleport'')
    \<and> \<not> supported playwright_operations (PStr ''teleport''))
   \<and> pw_switch ok_engine [(''operation'', PStr ''teleport'')] (PStr ''teleport'') (PNum 30000)
         \<lparr>results = [], trace = [Ev (ConnectOverCDP (PStr [])) (Returns ''ok'')]\<rparr>
       = (Some (ApplicationError ''Unsupported operation: teleport''),
          \<lparr>results = [], trace = [Ev (ConnectOverCDP (PStr [])) (Returns ''ok'')]\<rparr>)
   \<and> pw_connect ok_engine (getNodeParameter [(''operation'', PStr ''teleport'')] ''cdpUrl'' (PStr []))
         \<lparr>results = [], trace = []\<rparr>
       = (None, \<lparr>results = [], trace = [Ev (ConnectOverCDP (PStr [])) (Returns ''ok'')]\<rparr>)
   \<and> playwright_item ok_engine [(''operation'', PStr ''teleport'')] \<lparr>results = [], trace = []\<rparr>
       = pw_finally ok_engine
           (push (Failed (ApplicationError ''Unsupported operation: teleport''))
              \<lparr>results = [], trace = [Ev (ConnectOverCDP (PStr [])) (Returns ''ok'')]\<rparr>)
   \<and> (getNodeParameterReq
         (params \<lparr>params = [(''operation'', PStr ''teleport'')], field_list = None\<rparr>) ''operation''
         = Inr (PStr ''teleport'')
      \<and> \<not> supported stagehand_operations (PStr ''teleport''))
   \<and> invoke ok_engine (StagehandInit (PBool True) ''openai/gpt-4o'' ''sk-test'' (PStr []))
         \<lparr>results = [], trace = []\<rparr>
       = (Returns ''ok'',
          \<lparr>results = [],
             trace = [Ev (StagehandInit (PBool True) ''openai/gpt-4o'' ''sk-test'' (PStr []))
                        (Returns ''ok'')]\<rparr>)
   \<and> stagehand_item ok_engine ([''langchain'', ''chat_models'', ''openai''], ''gpt-4o'', ''sk-test'')
         \<lparr>params = [(''operation'', PStr ''teleport'')], field_list = None\<rparr>
         \<lparr>results = [], trace = []\<rparr>
       = sh_finally ok_engine
           (Some (ApplicationError ''Unsupported operation: teleport''),
            \<lparr>results = [],
               trace = [Ev (StagehandInit (PBool True) ''openai/gpt-4o'' ''sk-test'' (PStr []))
                          (Returns ''ok'')]\<rparr>)"
proof -
  let ?it = "[(''operation'', PStr ''teleport'')]"
  let ?s0 = "\<lparr>results = [], trace = []\<rparr>"
  let ?s1 = "\<lparr>results = [], trace = [Ev (ConnectOverCDP (PStr [])) (Returns ''ok'')]\<rparr>"
  let ?sit = "\<lparr>params = [(''operation'', PStr ''teleport'')], field_list = None\<rparr>"
  let ?cred = "([''langchain'', ''chat_models'', ''openai''], ''gpt-4o'', ''sk-test'')"
  let ?init = "StagehandInit (PBool True) ''openai/gpt-4o'' ''sk-test'' (PStr [])"
  let ?s2 = "\<lparr>results = [], trace = [Ev ?init (Returns ''ok'')]\<rparr>"
  have h: "getNodeParameterReq ?it ''operation'' = Inr (PStr ''teleport'')
      \<and> \<not> supported playwright_operations (PStr ''teleport'')"
    by (simp add: getNodeParameterReq_def supported_def playwright_operations_def)
  have c: "pw_connect ok_engine (getNodeParameter ?it ''cdpUrl'' (PStr [])) ?s0 = (None, ?s1)"
    by (simp add: run_defs)
  have g: "getNodeParameterReq (params ?sit) ''operation'' = Inr (PStr ''teleport'')
      \<and> \<not> supported stagehand_operations (PStr ''teleport'')"
    by (simp add: getNodeParameterReq_def supported_def stagehand_operations_def)
  have args: "StagehandInit (getNodeParameter (params ?sit) ''options.enableCaching'' (PBool True))
              (modelName (fst ?cred) (fst (snd ?cred))) (snd (snd ?cred))
              (getNodeParameter (params ?sit) ''cdpUrl'' (PStr [])) = ?init"
    by (simp add: run_defs)
  have i: "invoke ok_engine ?init ?s0 = (Returns ''ok'', ?s2)"
    by (simp add: run_defs)
  have msg: "''Unsupported operation: '' @ render (PStr ''teleport'') = ''Unsupported operation: teleport''"
    by simp
  note inst = unsupported_operation_after_acquire
    [where it = ?it and operation = "PStr ''teleport''" and eng = ok_engine and s = ?s0
       and s' = ?s1 and timeout = "PNum 30000" and ?s1.0 = ?s1 and sit = ?sit
       and soperation = "PStr ''teleport''" and cred = ?cred and v = "''ok''" and ?s2.0 = ?s2,
     unfolded args msg]
  from inst h c have a: "pw_switch ok_engine ?it (PStr ''teleport'') (PNum 30000) ?s1
       = (Some (ApplicationError ''Unsupported operation: teleport''), ?s1)"
     "playwright_item ok_engine ?it ?s0
       = pw_finally ok_engine (push (Failed (ApplicationError ''Unsupported operation: teleport'')) ?s1)"
    by blast+
  from inst g i have b: "stagehand_item ok_engine ?cred ?sit ?s0
       = sh_finally ok_engine (Some (ApplicationError ''Unsupported operation: teleport''), ?s2)"
    by blast
  from h a c g i b show ?thesis
    by blast
qed

section \<open>The model credential\<close>

lemma assert_model_rejects:
  "\<not> has_credential m \<Longrightarrow> \<exists>msg. assert_model m = Inl (AssertionFailed msg)"
  by (auto simp: has_credential_def assert_model_def isChatInstance_def
      split: option.splits pval.splits)

lemma assert_model_accepts:
  "has_credential m \<Longrightarrow> \<exists>cred. assert_model m = Inr cred"
  by (auto simp: has_credential_def assert_model_def isChatInstance_def
      split: option.splits pval.splits)

text \<open>
  Claim C6. When what is attached to the model input is not a usable credential
  (nothing is attached, or it is not a chat model, or its model name or its key is
  missing or not a string), \<^verbatim>\<open>execute\<close> raises the assertion error ahead of the loop,
  whatever the batch holds (act, extract and observe items included): the trace is
  empty, so no session was initialised. With nothing attached the error is
  \<open>A Chat Model is required\<close>.
\<close>

theorem missing_credential_rejected_first:
  "(\<not> has_credential m \<longrightarrow>
      (\<exists>msg. stagehand_execute eng m items = (Inl (AssertionFailed msg), [])))
   \<and> stagehand_execute eng None items = (Inl (AssertionFailed ''A Chat Model is required''), [])"
proof (intro conjI impI)
  assume "\<not> has_credential m"
  then obtain msg where "assert_model m = Inl (AssertionFailed msg)"
    using assert_model_rejects by blast
  then show "\<exists>msg. stagehand_execute eng m items = (Inl (AssertionFailed msg), [])"
    by (simp add: stagehand_execute_def)
next
  show "stagehand_execute eng None items = (Inl (AssertionFailed ''A Chat Model is required''), [])"
    by (simp add: stagehand_execute_def assert_model_def isChatInstance_def)
qed

text \<open>Two attachments without a usable credential: a chat model without key, and none.\<close>

theorem missing_credential_rejected_first_witness:
  "\<not> has_credential (Some \<lparr>lc_namespace = Some [''langchain'', ''chat_models'', ''openai''],
                            model = Some (PStr ''gpt-4o''), apiKey = None\<rparr>)
   \<and> (\<exists>msg. stagehand_execute ok_engine
               (Some \<lparr>lc_namespace = Some [''langchain'', ''chat_models'', ''openai''],
                      model = Some (PStr ''gpt-4o''), apiKey = None\<rparr>)
               [\<lparr>params = [(''operation'', PStr ''extract'')], field_list = None\<rparr>]
             = (Inl (AssertionFailed msg), []))
   \<and> stagehand_execute ok_engine None
       [\<lparr>params = [(''operation'', PStr ''act'')], field_list = None\<rparr>]
     = (Inl (AssertionFailed ''A Chat Model is required''), [])"
proof -
  let ?m = "Some \<lparr>lc_namespace = Some [''langchain'', ''chat_models'', ''openai''],
                            model = Some (PStr ''gpt-4o''), apiKey = None\<rparr>"
  have h: "\<not> has_credential ?m"
    by (simp add: has_credential_def)
  from missing_credential_rejected_first
    [of ?m ok_engine "[\<lparr>params = [(''operation'', PStr ''extract'')], field_list = None\<rparr>]"] h
  have "\<exists>msg. stagehand_execute ok_engine ?m
               [\<lparr>params = [(''operation'', PStr ''extract'')], field_list = None\<rparr>]
             = (Inl (AssertionFailed msg), [])"
    by blast
  with h missing_credential_rejected_first
    [of None ok_engine "[\<lparr>params = [(''operation'', PStr ''act'')], field_list = None\<rparr>]"]
  show ?thesis
    by blast
qed

section \<open>Load states\<close>

lemma pw_switch_bad_state:
  assumes "getNodeParameter it ''state'' (PStr ''load'') = st"
    "st \<noteq> PStr ''load''" "st \<noteq> PStr ''domcontentloaded''" "st \<noteq> PStr ''networkidle''"
  shows "pw_switch eng it (PStr ''waitForLoadState'') timeout s
         = (Some (ApplicationError (''Unsupported load state: '' @ render st)), s)"
  using assms by (simp add: pw_switch_def Let_def)

text \<open>
  Claim C8, as stated, on an engine that refuses the connection: the request with
  state \<open>bogus\<close> fails, but with the connection error, which leaves \<^verbatim>\<open>execute\<close>; the
  state is never looked at and no failure record of the unsupported state is made.
\<close>

theorem unsupported_load_state_behind_connection:
  "playwright_execute refusing_engine
     [[(''operation'', PStr ''waitForLoadState''), (''state'', PStr ''bogus'')]]
   = (Inl (EngineError ''connect ECONNREFUSED''),
      [Ev (ConnectOverCDP (PStr [])) (Throws ''connect ECONNREFUSED'')])
   \<and> fst (playwright_execute refusing_engine
            [[(''operation'', PStr ''waitForLoadState''), (''state'', PStr ''bogus'')]])
     \<noteq> Inl (ApplicationError ''Unsupported load state: bogus'')
   \<and> playwright_item refusing_engine
         [(''operation'', PStr ''waitForLoadState''), (''state'', PStr ''bogus'')]
         \<lparr>results = [], trace = []\<rparr>
     = (Some (EngineError ''connect ECONNREFUSED''),
        \<lparr>results = [], trace = [Ev (ConnectOverCDP (PStr [])) (Throws ''connect ECONNREFUSED'')]\<rparr>)"
  by (simp add: run_defs refusing_engine_def)

text \<open>
  Claim C8, amended. For a wait-for-load-state item whose state is none of \<open>load\<close>,
  \<open>domcontentloaded\<close> and \<open>networkidle\<close>, the \<^verbatim>\<open>switch\<close> throws the error
  \<open>Unsupported load state: <state>\<close> and makes no call; nothing the item adds to the
  trace is a \<^verbatim>\<open>waitForLoadState\<close> call, on any engine; the item never records a
  success, its only possible record being the failure record of that error; and once
  the session is acquired the item ends with that record and the close call.
\<close>

theorem unsupported_load_state_rejected:
  "getNodeParameterReq it ''operation'' = Inr (PStr ''waitForLoadState'')
   \<and> getNodeParameter it ''state'' (PStr ''load'') = st
   \<and> st \<noteq> PStr ''load'' \<and> st \<noteq> PStr ''domcontentloaded'' \<and> st \<noteq> PStr ''networkidle''
   \<longrightarrow> pw_switch eng it (PStr ''waitForLoadState'') timeout s'
         = (Some (ApplicationError (''Unsupported load state: '' @ render st)), s')
       \<and> (\<exists>evs. trace (snd (playwright_item eng it s)) = trace s @ evs
             \<and> (\<forall>e\<in>set evs. \<forall>a b. call_of e \<noteq> WaitForLoadState a b))
       \<and> (results (snd (playwright_item eng it s)) = results s
          \<or> results (snd (playwright_item eng it s))
             = results s @ [Failed (ApplicationError (''Unsupported load state: '' @ render st))])
       \<and> (pw_connect eng (getNodeParameter it ''cdpUrl'' (PStr [])) s = (None, s1)
            \<longrightarrow> playwright_item eng it s
                = pw_finally eng
                    (push (Failed (ApplicationError (''Unsupported load state: '' @ render st))) s1))"
proof (intro impI conjI)
  assume h: "getNodeParameterReq it ''operation'' = Inr (PStr ''waitForLoadState'')
   \<and> getNodeParameter it ''state'' (PStr ''load'') = st
   \<and> st \<noteq> PStr ''load'' \<and> st \<noteq> PStr ''domcontentloaded'' \<and> st \<noteq> PStr ''networkidle''"
  let ?err = "ApplicationError (''Unsupported load state: '' @ render st)"
  let ?u = "getNodeParameter it ''cdpUrl'' (PStr [])"
  from h show sw: "pw_switch eng it (PStr ''waitForLoadState'') timeout s' = (Some ?err, s')"
    for timeout s'
    by (simp add: pw_switch_bad_state)
  have item: "playwright_item eng it s = pw_finally eng (push (Failed ?err) s1)"
    if "pw_connect eng ?u s = (None, s1)" for s1
    using h sw that by (simp add: playwright_item_def Let_def pw_catch_def)
  obtain r s2 where c: "pw_connect eng ?u s = (r, s2)"
    by (cases "pw_connect eng ?u s")
  from pw_connect_effect(2) [OF c] obtain evs where
    evs: "trace s2 = trace s @ Ev (ConnectOverCDP ?u) (outcome_of eng (trace s) (ConnectOverCDP ?u)) # evs"
      "\<forall>e\<in>set evs. call_of e = NewContext \<or> call_of e = NewPage"
    by blast
  note rs = pw_connect_effect(1) [OF c]
  show "\<exists>evs. trace (snd (playwright_item eng it s)) = trace s @ evs
             \<and> (\<forall>e\<in>set evs. \<forall>a b. call_of e \<noteq> WaitForLoadState a b)"
  proof (cases r)
    case (Some e)
    with c h have "playwright_item eng it s = (Some e, s2)"
      by (simp add: playwright_item_def Let_def)
    with evs show ?thesis by auto
  next
    case None
    with c item have "trace (snd (playwright_item eng it s))
        = trace s2 @ [Ev BrowserClose (outcome_of eng (trace s2) BrowserClose)]"
      by (simp add: pw_finally_trace)
    with evs show ?thesis by auto
  qed
  show "results (snd (playwright_item eng it s)) = results s
          \<or> results (snd (playwright_item eng it s)) = results s @ [Failed ?err]"
  proof (cases r)
    case (Some e)
    with c h have "playwright_item eng it s = (Some e, s2)"
      by (simp add: playwright_item_def Let_def)
    with rs show ?thesis by simp
  next
    case None
    with c item rs show ?thesis by simp
  qed
  assume "pw_connect eng ?u s = (None, s1)"
  then show "playwright_item eng it s = pw_finally eng (push (Failed ?err) s1)"
    by (rule item)
qed


text \<open>The state \<open>bogus\<close> of the specification.\<close>

theorem unsupported_load_state_rejected_witness:
  "(getNodeParameterReq [(''operation'', PStr ''waitForLoadState''), (''state'', PStr ''bogus'')]
      ''operation'' = Inr (PStr ''waitForLoadState'')
    \<and> getNodeParameter [(''operation'', PStr ''waitForLoadState''), (''state'', PStr ''bogus'')]
        ''state'' (PStr ''load'') = PStr ''bogus''
    \<and> PStr ''bogus'' \<noteq> PStr ''load'' \<and> PStr ''bogus'' \<noteq> PStr ''domcontentloaded''
    \<and> PStr ''bogus'' \<noteq> PStr ''networkidle'')
   \<and> pw_switch ok_engine [(''operation'', PStr ''waitForLoadState''), (''state'', PStr ''bogus'')]
         (PStr ''waitForLoadState'') (PNum 30000)
         \<lparr>results = [], trace = [Ev (ConnectOverCDP (PStr [])) (Returns ''ok'')]\<rparr>
       = (Some (ApplicationError ''Unsupported load state: bogus''),
          \<lparr>results = [], trace = [Ev (ConnectOverCDP (PStr [])) (Returns ''ok'')]\<rparr>)
   \<and> pw_connect ok_engine
         (getNodeParameter [(''operation'', PStr ''waitForLoadState''), (''state'', PStr ''bogus'')]
            ''cdpUrl'' (PStr []))
         \<lparr>results = [], trace = []\<rparr>
       = (None, \<lparr>results = [], trace = [Ev (ConnectOverCDP (PStr [])) (Returns ''ok'')]\<rparr>)
   \<and> playwright_item ok_engine
         [(''operation'', PStr ''waitForLoadState''), (''state'', PStr ''bogus'')]
         \<lparr>results = [], trace = []\<rparr>
       = pw_finally ok_engine
           (push (Failed (ApplicationError ''Unsupported load state: bogus''))
              \<lparr>results = [], trace = [Ev (ConnectOverCDP (PStr [])) (Returns ''ok'')]\<rparr>)
   \<and> playwright_execute ok_engine
         [[(''operation'', PStr ''waitForLoadState''), (''state'', PStr ''bogus'')]]
       = (Inr [[Failed (ApplicationError ''Unsupported load state: bogus'')]],
          [Ev (ConnectOverCDP (PStr [])) (Returns ''ok''), Ev BrowserClose (Returns ''ok'')])"
proof -
  let ?it = "[(''operation'', PStr ''waitForLoadState''), (''state'', PStr ''bogus'')]"
  let ?s0 = "\<lparr>results = [], trace = []\<rparr>"
  let ?s1 = "\<lparr>results = [], trace = [Ev (ConnectOverCDP (PStr [])) (Returns ''ok'')]\<rparr>"
  have h: "getNodeParameterReq ?it ''operation'' = Inr (PStr ''waitForLoadState'')
    \<and> getNodeParameter ?it ''state'' (PStr ''load'') = PStr ''bogus''
    \<and> PStr ''bogus'' \<noteq> PStr ''load'' \<and> PStr ''bogus'' \<noteq> PStr ''domcontentloaded''
    \<and> PStr ''bogus'' \<noteq> PStr ''networkidle''"
    by (simp add: getNodeParameterReq_def getNodeParameter_def)
  have c: "pw_connect ok_engine (getNodeParameter ?it ''cdpUrl'' (PStr [])) ?s0 = (None, ?s1)"
    by (simp add: run_defs)
  have msg: "''Unsupported load state: '' @ render (PStr ''bogus'') = ''Unsupported load state: bogus''"
    by simp
  note inst = unsupported_load_state_rejected
    [where it = ?it and st = "PStr ''bogus''" and eng = ok_engine and timeout = "PNum 30000"
       and s' = ?s1 and s = ?s0 and ?s1.0 = ?s1, unfolded msg]
  from inst h c have a: "pw_switch ok_engine ?it (PStr ''waitForLoadState'') (PNum 30000) ?s1
       = (Some (ApplicationError ''Unsupported load state: bogus''), ?s1)"
     "playwright_item ok_engine ?it ?s0
       = pw_finally ok_engine (push (Failed (ApplicationError ''Unsupported load state: bogus'')) ?s1)"
    by blast+
  have e: "playwright_execute ok_engine [?it]
       = (Inr [[Failed (ApplicationError ''Unsupported load state: bogus'')]],
          [Ev (ConnectOverCDP (PStr [])) (Returns ''ok''), Ev BrowserClose (Returns ''ok'')])"
    by (simp add: playwright_execute_def a(2)) (simp add: run_defs)
  from h a c e show ?thesis
    by blast
qed

section \<open>Screenshot quality\<close>

lemma pw_switch_screenshot_trace:
  "\<exists>rest. trace (snd (pw_switch eng it (PStr ''screenshot'') timeout s))
      = trace s @ Ev (Screenshot (getNodeParameter it ''fullPage'' (PBool False))
                       (getNodeParameter it ''quality'' (PNum 80)) timeout)
                    (outcome_of eng (trace s)
                       (Screenshot (getNodeParameter it ''fullPage'' (PBool False))
                          (getNodeParameter it ''quality'' (PNum 80)) timeout)) # rest"
  by (auto simp: pw_switch_def invoke_def Let_def split: outcome.splits)

text \<open>
  Claim C7, as stated, at quality 150: the node connects to the browser and calls
  \<^verbatim>\<open>page.screenshot\<close> with quality 150; on an engine that accepts the call the item
  succeeds.
\<close>

theorem out_of_range_quality_reaches_engine:
  "playwright_execute ok_engine [[(''operation'', PStr ''screenshot''), (''quality'', PNum 150)]]
   = (Inr [[Output (PStr ''screenshot'') None (Some ''ok'')]],
      [Ev (ConnectOverCDP (PStr [])) (Returns ''ok''),
       Ev (Screenshot (PBool False) (PNum 150) (PNum 30000)) (Returns ''ok''),
       Ev (PrepareBinaryData ''ok'') (Returns ''ok''),
       Ev BrowserClose (Returns ''ok'')])"
  by (simp add: run_defs)

text \<open>
  Claim C7, amended. \<^verbatim>\<open>execute\<close> does not compare the quality of a screenshot item
  with the bound 0 to 100 that the node description declares: for every quality outside
  the bound the item's first call is the connection to the browser, and once the
  session is acquired the next call is \<^verbatim>\<open>page.screenshot\<close> with that quality
  unchanged. Whether the value is refused is left to the engine.
\<close>

theorem screenshot_quality_unchecked:
  "getNodeParameterReq it ''operation'' = Inr (PStr ''screenshot'')
   \<and> getNodeParameter it ''quality'' (PNum 80) = PNum q
   \<and> (q < quality_minValue \<or> quality_maxValue < q)
   \<longrightarrow> (\<exists>rest. trace (snd (playwright_item eng it s))
            = trace s @ Ev (ConnectOverCDP (getNodeParameter it ''cdpUrl'' (PStr [])))
                          (outcome_of eng (trace s)
                             (ConnectOverCDP (getNodeParameter it ''cdpUrl'' (PStr [])))) # rest)
       \<and> (pw_connect eng (getNodeParameter it ''cdpUrl'' (PStr [])) s = (None, s1)
            \<longrightarrow> (\<exists>rest. trace (snd (playwright_item eng it s))
                   = trace s1
                     @ Ev (Screenshot (getNodeParameter it ''fullPage'' (PBool False)) (PNum q)
                             (getNodeParameter it ''options.timeout'' (PNum 30000)))
                          (outcome_of eng (trace s1)
                             (Screenshot (getNodeParameter it ''fullPage'' (PBool False)) (PNum q)
                                (getNodeParameter it ''options.timeout'' (PNum 30000)))) # rest))"
proof (intro impI conjI)
  assume h: "getNodeParameterReq it ''operation'' = Inr (PStr ''screenshot'')
   \<and> getNodeParameter it ''quality'' (PNum 80) = PNum q
   \<and> (q < quality_minValue \<or> quality_maxValue < q)"
  let ?u = "getNodeParameter it ''cdpUrl'' (PStr [])"
  let ?t = "getNodeParameter it ''options.timeout'' (PNum 30000)"
  from h playwright_item_first_call [of it "PStr ''screenshot''" eng s]
  show "\<exists>rest. trace (snd (playwright_item eng it s))
            = trace s @ Ev (ConnectOverCDP ?u) (outcome_of eng (trace s) (ConnectOverCDP ?u)) # rest"
    by auto
  assume c: "pw_connect eng ?u s = (None, s1)"
  let ?b = "pw_switch eng it (PStr ''screenshot'') ?t s1"
  from h c have "playwright_item eng it s = pw_finally eng (pw_catch ?b)"
    by (simp add: playwright_item_def Let_def)
  then have "trace (snd (playwright_item eng it s))
      = trace (snd ?b) @ [Ev BrowserClose (outcome_of eng (trace (snd ?b)) BrowserClose)]"
    by (simp add: pw_finally_def invoke_def Let_def split: outcome.splits)
  with pw_switch_screenshot_trace [of eng it ?t s1] h
  show "\<exists>rest. trace (snd (playwright_item eng it s))
                   = trace s1
                     @ Ev (Screenshot (getNodeParameter it ''fullPage'' (PBool False)) (PNum q) ?t)
                          (outcome_of eng (trace s1)
                             (Screenshot (getNodeParameter it ''fullPage'' (PBool False)) (PNum q) ?t))
                       # rest"
    by auto
qed

text \<open>Quality 150 on the engine that accepts every call.\<close>

theorem screenshot_quality_unchecked_witness:
  "(getNodeParameterReq [(''operation'', PStr ''screenshot''), (''quality'', PNum 150)] ''operation''
      = Inr (PStr ''screenshot'')
    \<and> getNodeParameter [(''operation'', PStr ''screenshot''), (''quality'', PNum 150)] ''quality''
        (PNum 80) = PNum 150
    \<and> (150 < quality_minValue \<or> quality_maxValue < 150))
   \<and> pw_connect ok_engine
         (getNodeParameter [(''operation'', PStr ''screenshot''), (''quality'', PNum 150)] ''cdpUrl''
            (PStr []))
         \<lparr>results = [], trace = []\<rparr>
       = (None, \<lparr>results = [], trace = [Ev (ConnectOverCDP (PStr [])) (Returns ''ok'')]\<rparr>)
   \<and> (\<exists>rest. trace (snd (playwright_item ok_engine
                              [(''operation'', PStr ''screenshot''), (''quality'', PNum 150)]
                              \<lparr>results = [], trace = []\<rparr>))
        = [Ev (ConnectOverCDP (PStr [])) (Returns ''ok''),
           Ev (Screenshot (PBool False) (PNum 150) (PNum 30000)) (Returns ''ok'')] @ rest)"
proof -
  let ?it = "[(''operation'', PStr ''screenshot''), (''quality'', PNum 150)]"
  let ?s0 = "\<lparr>results = [], trace = []\<rparr>"
  let ?s1 = "\<lparr>results = [], trace = [Ev (ConnectOverCDP (PStr [])) (Returns ''ok'')]\<rparr>"
  have h: "getNodeParameterReq ?it ''operation'' = Inr (PStr ''screenshot'')
    \<and> getNodeParameter ?it ''quality'' (PNum 80) = PNum 150
    \<and> (150 < quality_minValue \<or> quality_maxValue < 150)"
    by (simp add: getNodeParameterReq_def getNodeParameter_def quality_maxValue_def)
  have c: "pw_connect ok_engine (getNodeParameter ?it ''cdpUrl'' (PStr [])) ?s0 = (None, ?s1)"
    by (simp add: run_defs)
  have p: "getNodeParameter ?it ''fullPage'' (PBool False) = PBool False"
      "getNodeParameter ?it ''options.timeout'' (PNum 30000) = PNum 30000"
    by (simp_all add: getNodeParameter_def)
  have o: "outcome_of ok_engine tr call = Returns ''ok''" for tr call
    by (simp add: ok_engine_def)
  from screenshot_quality_unchecked
    [where it = ?it and q = 150 and eng = ok_engine and s = ?s0 and ?s1.0 = ?s1] h c
  have "\<exists>rest. trace (snd (playwright_item ok_engine ?it ?s0))
        = trace ?s1 @ Ev (Screenshot (PBool False) (PNum 150) (PNum 30000)) (Returns ''ok'') # rest"
    unfolding p o by blast
  then have "\<exists>rest. trace (snd (playwright_item ok_engine ?it ?s0))
        = [Ev (ConnectOverCDP (PStr [])) (Returns ''ok''),
           Ev (Screenshot (PBool False) (PNum 150) (PNum 30000)) (Returns ''ok'')] @ rest"
    by simp
  with h c show ?thesis
    by blast
qed

section \<open>Fill and type\<close>

lemma pw_switch_fill:
  "operation = PStr ''fill'' \<or> operation = PStr ''type'' \<Longrightarrow>
     pw_switch eng it operation timeout s
     = pw_step eng
         (Fill (getNodeParameter it ''selector'' (PStr [])) (getNodeParameter it ''text'' (PStr []))
            timeout)
         operation s"
  by (auto simp: pw_switch_def)

lemma pw_step_retag:
  "fst (pw_step eng c operation' s) = fst (pw_step eng c operation s)"
  "trace (snd (pw_step eng c operation' s)) = trace (snd (pw_step eng c operation s))"
  "trace (snd (pw_step eng c operation s)) = trace s @ [Ev c (outcome_of eng (trace s) c)]"
  "results (pw_catch (pw_step eng c operation' s))
   = results s @ map (retag operation')
       (drop (length (results s)) (results (pw_catch (pw_step eng c operation s))))"
  by (auto simp: pw_step_def pw_catch_def invoke_def Let_def split: outcome.splits)

text \<open>
  Claim C10, as stated, on two items that differ in the operation only: the records
  are not the same, since each record names the operation that was requested.
\<close>

theorem type_result_differs_from_fill:
  "fst (playwright_execute ok_engine [[(''operation'', PStr ''type''), (''selector'', PStr ''#q'')]])
     = Inr [[Output (PStr ''type'') None None]]
   \<and> fst (playwright_execute ok_engine [[(''operation'', PStr ''fill''), (''selector'', PStr ''#q'')]])
     = Inr [[Output (PStr ''fill'') None None]]
   \<and> fst (playwright_execute ok_engine [[(''operation'', PStr ''type''), (''selector'', PStr ''#q'')]])
     \<noteq> fst (playwright_execute ok_engine
              [[(''operation'', PStr ''fill''), (''selector'', PStr ''#q'')]])"
  by (simp add: run_defs)

text \<open>
  Claim C10, amended. A type item and a fill item with the same other parameters make
  the same calls with the same arguments on every engine (after the acquisition, one
  \<^verbatim>\<open>page.fill\<close> with the selector, the text and the timeout, then the close), end
  the same way, and leave the same records except that a success record carries
  \<open>type\<close> where the other carries \<open>fill\<close>.
\<close>

theorem type_is_fill_up_to_label:
  "map_of itf ''operation'' = Some (PStr ''fill'') \<and> map_of itt ''operation'' = Some (PStr ''type'')
   \<and> (\<forall>name. name \<noteq> ''operation'' \<longrightarrow> map_of itt name = map_of itf name)
   \<longrightarrow> fst (playwright_item eng itt s) = fst (playwright_item eng itf s)
       \<and> trace (snd (playwright_item eng itt s)) = trace (snd (playwright_item eng itf s))
       \<and> results (snd (playwright_item eng itt s))
           = results s @ map (retag (PStr ''type''))
               (drop (length (results s)) (results (snd (playwright_item eng itf s))))
       \<and> (pw_connect eng (getNodeParameter itf ''cdpUrl'' (PStr [])) s = (None, s1)
            \<longrightarrow> (\<exists>o1 o2. trace (snd (playwright_item eng itf s))
                   = trace s1
                     @ [Ev (Fill (getNodeParameter itf ''selector'' (PStr []))
                              (getNodeParameter itf ''text'' (PStr []))
                              (getNodeParameter itf ''options.timeout'' (PNum 30000))) o1,
                        Ev BrowserClose o2]))"
proof (intro impI)
  assume h: "map_of itf ''operation'' = Some (PStr ''fill'')
   \<and> map_of itt ''operation'' = Some (PStr ''type'')
   \<and> (\<forall>name. name \<noteq> ''operation'' \<longrightarrow> map_of itt name = map_of itf name)"
  then have opf: "getNodeParameterReq itf ''operation'' = Inr (PStr ''fill'')"
    and opt: "getNodeParameterReq itt ''operation'' = Inr (PStr ''type'')"
    by (simp_all add: getNodeParameterReq_Inr)
  from h have same: "getNodeParameter itt name d = getNodeParameter itf name d"
    if "name \<noteq> ''operation''" for name d
    using that by (simp add: getNodeParameter_def)
  let ?u = "getNodeParameter itf ''cdpUrl'' (PStr [])"
  let ?t = "getNodeParameter itf ''options.timeout'' (PNum 30000)"
  let ?c = "Fill (getNodeParameter itf ''selector'' (PStr [])) (getNodeParameter itf ''text'' (PStr [])) ?t"
  obtain r s2 where c: "pw_connect eng ?u s = (r, s2)"
    by (cases "pw_connect eng ?u s")
  note rs = pw_connect_effect(1) [OF c]
  show "fst (playwright_item eng itt s) = fst (playwright_item eng itf s)
       \<and> trace (snd (playwright_item eng itt s)) = trace (snd (playwright_item eng itf s))
       \<and> results (snd (playwright_item eng itt s))
           = results s @ map (retag (PStr ''type''))
               (drop (length (results s)) (results (snd (playwright_item eng itf s))))
       \<and> (pw_connect eng ?u s = (None, s1)
            \<longrightarrow> (\<exists>o1 o2. trace (snd (playwright_item eng itf s))
                   = trace s1 @ [Ev ?c o1, Ev BrowserClose o2]))"
  proof (cases r)
    case (Some e)
    with c opf opt same have "playwright_item eng itf s = (Some e, s2)"
        "playwright_item eng itt s = (Some e, s2)"
      by (simp_all add: playwright_item_def Let_def)
    with rs c Some show ?thesis by simp
  next
    case None
    let ?bf = "pw_step eng ?c (PStr ''fill'') s2"
    let ?bt = "pw_step eng ?c (PStr ''type'') s2"
    from c None opf have f: "playwright_item eng itf s = pw_finally eng (pw_catch ?bf)"
      by (simp add: playwright_item_def Let_def pw_switch_fill)
    from c None opt same have t: "playwright_item eng itt s = pw_finally eng (pw_catch ?bt)"
      by (simp add: playwright_item_def Let_def pw_switch_fill)
    have tr: "trace (pw_catch ?bt) = trace (pw_catch ?bf)"
      by (simp add: pw_step_retag(3))
    have "fst (playwright_item eng itt s) = fst (playwright_item eng itf s)"
      unfolding f t by (rule pw_finally_fst [OF tr])
    moreover have "trace (snd (playwright_item eng itt s)) = trace (snd (playwright_item eng itf s))"
      by (simp add: f t pw_finally_trace pw_step_retag(3))
    moreover have "results (snd (playwright_item eng itt s))
           = results s @ map (retag (PStr ''type''))
               (drop (length (results s)) (results (snd (playwright_item eng itf s))))"
      using pw_step_retag(4) [of eng ?c "PStr ''type''" s2 "PStr ''fill''"] rs
      by (simp add: f t)
    moreover have "\<exists>o1 o2. trace (snd (playwright_item eng itf s))
                   = trace s1 @ [Ev ?c o1, Ev BrowserClose o2]"
      if "pw_connect eng ?u s = (None, s1)"
      using that c by (simp add: f pw_finally_trace pw_step_retag(3))
    ultimately show ?thesis by blast
  qed
qed

text \<open>A fill and a type of the text \<open>hello\<close> into \<open>#q\<close>.\<close>

theorem type_is_fill_up_to_label_witness:
  "(map_of [(''operation'', PStr ''fill''), (''selector'', PStr ''#q''), (''text'', PStr ''hello'')]
      ''operation'' = Some (PStr ''fill'')
    \<and> map_of [(''operation'', PStr ''type''), (''selector'', PStr ''#q''), (''text'', PStr ''hello'')]
        ''operation'' = Some (PStr ''type''))
   \<and> pw_connect ok_engine
         (getNodeParameter
            [(''operation'', PStr ''fill''), (''selector'', PStr ''#q''), (''text'', PStr ''hello'')]
            ''cdpUrl'' (PStr []))
         \<lparr>results = [], trace = []\<rparr>
       = (None, \<lparr>results = [], trace = [Ev (ConnectOverCDP (PStr [])) (Returns ''ok'')]\<rparr>)
   \<and> playwright_item ok_engine
         [(''operation'', PStr ''fill''), (''selector'', PStr ''#q''), (''text'', PStr ''hello'')]
         \<lparr>results = [], trace = []\<rparr>
       = (None,
          \<lparr>results = [Output (PStr ''fill'') None None],
             trace = [Ev (ConnectOverCDP (PStr [])) (Returns ''ok''),
                      Ev (Fill (PStr ''#q'') (PStr ''hello'') (PNum 30000)) (Returns ''ok''),
                      Ev BrowserClose (Returns ''ok'')]\<rparr>)
   \<and> fst (playwright_item ok_engine
            [(''operation'', PStr ''type''), (''selector'', PStr ''#q''), (''text'', PStr ''hello'')]
            \<lparr>results = [], trace = []\<rparr>) = None
   \<and> trace (snd (playwright_item ok_engine
            [(''operation'', PStr ''type''), (''selector'', PStr ''#q''), (''text'', PStr ''hello'')]
            \<lparr>results = [], trace = []\<rparr>))
       = [Ev (ConnectOverCDP (PStr [])) (Returns ''ok''),
          Ev (Fill (PStr ''#q'') (PStr ''hello'') (PNum 30000)) (Returns ''ok''),
          Ev BrowserClose (Returns ''ok'')]
   \<and> results (snd (playwright_item ok_engine
            [(''operation'', PStr ''type''), (''selector'', PStr ''#q''), (''text'', PStr ''hello'')]
            \<lparr>results = [], trace = []\<rparr>))
       = [Output (PStr ''type'') None None]"
proof -
  let ?itf = "[(''operation'', PStr ''fill''), (''selector'', PStr ''#q''), (''text'', PStr ''hello'')]"
  let ?itt = "[(''operation'', PStr ''type''), (''selector'', PStr ''#q''), (''text'', PStr ''hello'')]"
  let ?s0 = "\<lparr>results = [], trace = []\<rparr>"
  let ?s1 = "\<lparr>results = [], trace = [Ev (ConnectOverCDP (PStr [])) (Returns ''ok'')]\<rparr>"
  let ?tr = "[Ev (ConnectOverCDP (PStr [])) (Returns ''ok''),
              Ev (Fill (PStr ''#q'') (PStr ''hello'') (PNum 30000)) (Returns ''ok''),
              Ev BrowserClose (Returns ''ok'')]"
  have h: "map_of ?itf ''operation'' = Some (PStr ''fill'')
      \<and> map_of ?itt ''operation'' = Some (PStr ''type'')"
    by simp
  have same: "\<forall>name. name \<noteq> ''operation'' \<longrightarrow> map_of ?itt name = map_of ?itf name"
    by simp
  have c: "pw_connect ok_engine (getNodeParameter ?itf ''cdpUrl'' (PStr [])) ?s0 = (None, ?s1)"
    by (simp add: run_defs)
  have f: "playwright_item ok_engine ?itf ?s0
       = (None, \<lparr>results = [Output (PStr ''fill'') None None], trace = ?tr\<rparr>)"
    by (simp add: run_defs)
  from type_is_fill_up_to_label
    [where itf = ?itf and itt = ?itt and eng = ok_engine and s = ?s0 and ?s1.0 = ?s1] h same
  have "fst (playwright_item ok_engine ?itt ?s0) = fst (playwright_item ok_engine ?itf ?s0)
       \<and> trace (snd (playwright_item ok_engine ?itt ?s0))
           = trace (snd (playwright_item ok_engine ?itf ?s0))
       \<and> results (snd (playwright_item ok_engine ?itt ?s0))
           = results ?s0 @ map (retag (PStr ''type''))
               (drop (length (results ?s0)) (results (snd (playwright_item ok_engine ?itf ?s0))))"
    by blast
  then have t: "fst (playwright_item ok_engine ?itt ?s0) = None"
      "trace (snd (playwright_item ok_engine ?itt ?s0)) = ?tr"
      "results (snd (playwright_item ok_engine ?itt ?s0)) = [Output (PStr ''type'') None None]"
    by (simp_all add: f)
  from h c f t show ?thesis
    by blast
qed

end
